theory Spec2Isabelle
  imports Main
begin

section \<open>Python values used by both scripts\<close>

text \<open>
  The two scripts are \<^verbatim>\<open>S2S3_Submit.py\<close> (class \<^verbatim>\<open>S2SForecastRunner\<close> and the
  entry point) and \<^verbatim>\<open>s2s_check.py\<close> (the readiness probe). Exceptions are values:
  a function that can raise returns \<open>error + 'a\<close>, \<open>Inl\<close> carrying the exception.
  Python integers are \<open>int\<close>, strings are \<open>string\<close> (ASCII text).
\<close>

datatype error = ValueError | OverflowError | IsADirectoryError

subsection \<open>Strings\<close>

text \<open>\<^verbatim>\<open>pat in s\<close> on two strings: \<open>pat\<close> occurs as a contiguous substring.\<close>

fun starts_with :: "string \<Rightarrow> string \<Rightarrow> bool" where
  "starts_with [] s = True"
| "starts_with (p # ps) [] = False"
| "starts_with (p # ps) (c # cs) = (p = c \<and> starts_with ps cs)"

fun str_in :: "string \<Rightarrow> string \<Rightarrow> bool" where
  "str_in pat [] = (pat = [])"
| "str_in pat (c # cs) = (starts_with pat (c # cs) \<or> str_in pat cs)"

text \<open>
  \<^verbatim>\<open>str.strip()\<close>: the whitespace characters of the ASCII range are the codes
  9 to 13, 28 to 31 and 32.
\<close>

definition is_space :: "char \<Rightarrow> bool" where
  "is_space c = (let n = (of_char c :: nat) in (9 \<le> n \<and> n \<le> 13) \<or> (28 \<le> n \<and> n \<le> 32))"

definition strip :: "string \<Rightarrow> string" where
  "strip s = rev (dropWhile is_space (rev (dropWhile is_space s)))"

text \<open>Decimal digits: one digit of a number, and the value of a digit character.\<close>

definition digit_char :: "int \<Rightarrow> char" where
  "digit_char n = ''0123456789'' ! nat (n mod 10)"

definition is_digit :: "char \<Rightarrow> bool" where
  "is_digit c = (c \<in> set ''0123456789'')"

definition digit_of :: "char \<Rightarrow> int" where
  "digit_of c = of_char c - 48"

text \<open>\<^verbatim>\<open>%02d\<close> and \<^verbatim>\<open>%04d\<close>: zero-padded fields of \<^verbatim>\<open>strftime\<close>.\<close>

definition fmt2 :: "int \<Rightarrow> string" where
  "fmt2 n = [digit_char (n div 10), digit_char n]"

definition fmt4 :: "int \<Rightarrow> string" where
  "fmt4 n = [digit_char (n div 1000), digit_char (n div 100), digit_char (n div 10), digit_char n]"

text \<open>\<^verbatim>\<open>str(n)\<close> for a positive integer below 10000 (a year, a month or a day).\<close>

definition str_of_int :: "int \<Rightarrow> string" where
  "str_of_int n =
     (if n < 10 then [digit_char n]
      else if n < 100 then fmt2 n
      else if n < 1000 then [digit_char (n div 100), digit_char (n div 10), digit_char n]
      else fmt4 n)"

subsection \<open>The \<^verbatim>\<open>datetime\<close> module\<close>

text \<open>
  A \<^verbatim>\<open>datetime\<close> value as the scripts use it: a date with hour and minute (seconds and
  microseconds are never set). The arithmetic follows the module's own helpers
  \<^verbatim>\<open>_is_leap\<close>, \<^verbatim>\<open>_days_in_month\<close>, \<^verbatim>\<open>_days_before_year\<close>, \<^verbatim>\<open>_days_before_month\<close>
  and \<^verbatim>\<open>_ymd2ord\<close>; the tables have the module's placeholder at index 0.
\<close>

record datetime =
  dt_year :: int
  dt_month :: int
  dt_day :: int
  dt_hour :: int
  dt_minute :: int

definition is_leap :: "int \<Rightarrow> bool" where
  "is_leap y = (y mod 4 = 0 \<and> (y mod 100 \<noteq> 0 \<or> y mod 400 = 0))"

definition DAYS_IN_MONTH :: "int list" where
  "DAYS_IN_MONTH = [-1, 31, 28, 31, 30, 31, 30, 31, 31, 30, 31, 30, 31]"

definition DAYS_BEFORE_MONTH :: "int list" where
  "DAYS_BEFORE_MONTH = [-1, 0, 31, 59, 90, 120, 151, 181, 212, 243, 273, 304, 334]"

definition days_in_month :: "int \<Rightarrow> int \<Rightarrow> int" where
  "days_in_month y m = (if m = 2 \<and> is_leap y then 29 else DAYS_IN_MONTH ! nat m)"

definition days_before_year :: "int \<Rightarrow> int" where
  "days_before_year yr = (let y = yr - 1 in y * 365 + y div 4 - y div 100 + y div 400)"

definition days_before_month :: "int \<Rightarrow> int \<Rightarrow> int" where
  "days_before_month y m = DAYS_BEFORE_MONTH ! nat m + (if m > 2 \<and> is_leap y then 1 else 0)"

definition ymd2ord :: "int \<Rightarrow> int \<Rightarrow> int \<Rightarrow> int" where
  "ymd2ord y m d = days_before_year y + days_before_month y m + d"

text \<open>
  The constructor \<^verbatim>\<open>datetime(year, month, day)\<close> raises \<^verbatim>\<open>ValueError\<close> outside
  years 1 to 9999, months 1 to 12 and the days of the month.
\<close>

definition valid_ymd :: "int \<Rightarrow> int \<Rightarrow> int \<Rightarrow> bool" where
  "valid_ymd y m d = (1 \<le> y \<and> y \<le> 9999 \<and> 1 \<le> m \<and> m \<le> 12 \<and> 1 \<le> d \<and> d \<le> days_in_month y m)"

definition datetime_new :: "int \<Rightarrow> int \<Rightarrow> int \<Rightarrow> error + datetime" where
  "datetime_new y m d =
     (if valid_ymd y m d
      then Inr \<lparr>dt_year = y, dt_month = m, dt_day = d, dt_hour = 0, dt_minute = 0\<rparr>
      else Inl ValueError)"

definition toordinal :: "datetime \<Rightarrow> int" where
  "toordinal t = ymd2ord (dt_year t) (dt_month t) (dt_day t)"

text \<open>
  \<^verbatim>\<open>(a - b).days\<close>: the difference of two datetimes is normalised to whole days plus a
  non-negative rest, so the minutes of the day take part with floor division.
\<close>

definition minute_of_day :: "datetime \<Rightarrow> int" where
  "minute_of_day t = dt_hour t * 60 + dt_minute t"

definition sub_days :: "datetime \<Rightarrow> datetime \<Rightarrow> int" where
  "sub_days a b = toordinal a - toordinal b + (minute_of_day a - minute_of_day b) div 1440"

text \<open>
  \<^verbatim>\<open>t - timedelta(days=1)\<close>: the same time on the day before; \<^verbatim>\<open>OverflowError\<close> when
  that day would lie before year 1.
\<close>

definition minus_one_day :: "datetime \<Rightarrow> error + datetime" where
  "minus_one_day t =
     (if dt_day t > 1 then Inr (t\<lparr>dt_day := dt_day t - 1\<rparr>)
      else if dt_month t > 1
        then Inr (t\<lparr>dt_month := dt_month t - 1,
                    dt_day := days_in_month (dt_year t) (dt_month t - 1)\<rparr>)
      else if dt_year t > 1
        then Inr (t\<lparr>dt_year := dt_year t - 1, dt_month := 12, dt_day := 31\<rparr>)
      else Inl OverflowError)"

text \<open>The ISO form of a date, \<open>YYYY-MM-DD\<close>: the form of the date on the command line.\<close>

definition iso_date :: "int \<Rightarrow> int \<Rightarrow> int \<Rightarrow> string" where
  "iso_date y m d = fmt4 y @ ''-'' @ fmt2 m @ ''-'' @ fmt2 d"

text \<open>
  \<^verbatim>\<open>strftime\<close> with the formats the scripts use. \<^verbatim>\<open>%Y\<close> is the year as the C library
  of the platform prints it, in decimal without leading zeros (\<open>999\<close> for the year 999);
  \<^verbatim>\<open>%m\<close>, \<^verbatim>\<open>%d\<close>, \<^verbatim>\<open>%H\<close> and \<^verbatim>\<open>%M\<close> have two digits.
\<close>

definition strftime_Y :: "int \<Rightarrow> string" where
  "strftime_Y y = str_of_int y"

definition strftime_Ymd_dashed :: "datetime \<Rightarrow> string" where
  "strftime_Ymd_dashed t =
     strftime_Y (dt_year t) @ ''-'' @ fmt2 (dt_month t) @ ''-'' @ fmt2 (dt_day t)"

definition strftime_HM_colon :: "datetime \<Rightarrow> string" where
  "strftime_HM_colon t = fmt2 (dt_hour t) @ '':'' @ fmt2 (dt_minute t)"

definition strftime_Ymd_HMz :: "datetime \<Rightarrow> string" where
  "strftime_Ymd_HMz t =
     strftime_Y (dt_year t) @ fmt2 (dt_month t) @ fmt2 (dt_day t) @ ''_''
       @ fmt2 (dt_hour t) @ fmt2 (dt_minute t) @ ''z''"

definition strftime_Ymd_Hz :: "datetime \<Rightarrow> string" where
  "strftime_Ymd_Hz t =
     strftime_Y (dt_year t) @ fmt2 (dt_month t) @ fmt2 (dt_day t) @ ''_''
       @ fmt2 (dt_hour t) @ ''z''"

subsection \<open>\<^verbatim>\<open>datetime.strptime(s, '%Y-%m-%d')\<close>\<close>

text \<open>
  \<^verbatim>\<open>strptime\<close> turns the format into the regular expression
  \<^verbatim>\<open>(\d\d\d\d)-(1[0-2]|0[1-9]|[1-9])-(3[0-1]|[1-2]\d|0[1-9]|[1-9]| [1-9])\<close>, matches a
  prefix of the input with it, raises \<^verbatim>\<open>ValueError\<close> when nothing matches or when
  input is left over, and builds the date with the constructor, which raises
  \<^verbatim>\<open>ValueError\<close> for a day the month does not have. Each group lists its
  alternatives in the order the matcher tries them, with the input left after each.
\<close>

definition year_alts :: "string \<Rightarrow> (int \<times> string) list" where
  "year_alts s =
     (case s of
        a # b # c # d # r \<Rightarrow>
          if is_digit a \<and> is_digit b \<and> is_digit c \<and> is_digit d
          then [(1000 * digit_of a + 100 * digit_of b + 10 * digit_of c + digit_of d, r)]
          else []
      | _ \<Rightarrow> [])"

definition month_alts :: "string \<Rightarrow> (int \<times> string) list" where
  "month_alts s =
     (case s of
        a # b # r \<Rightarrow>
          (if a = CHR ''1'' \<and> b \<in> set ''012'' then [(10 + digit_of b, r)] else []) @
          (if a = CHR ''0'' \<and> b \<in> set ''123456789'' then [(digit_of b, r)] else [])
      | _ \<Rightarrow> []) @
     (case s of
        a # r \<Rightarrow> if a \<in> set ''123456789'' then [(digit_of a, r)] else []
      | _ \<Rightarrow> [])"

definition day_alts :: "string \<Rightarrow> (int \<times> string) list" where
  "day_alts s =
     (case s of
        a # b # r \<Rightarrow>
          (if a = CHR ''3'' \<and> b \<in> set ''01'' then [(30 + digit_of b, r)] else []) @
          (if a \<in> set ''12'' \<and> is_digit b then [(10 * digit_of a + digit_of b, r)] else []) @
          (if a = CHR ''0'' \<and> b \<in> set ''123456789'' then [(digit_of b, r)] else [])
      | _ \<Rightarrow> []) @
     (case s of
        a # r \<Rightarrow> if a \<in> set ''123456789'' then [(digit_of a, r)] else []
      | _ \<Rightarrow> []) @
     (case s of
        a # b # r \<Rightarrow> if a = CHR '' '' \<and> b \<in> set ''123456789'' then [(digit_of b, r)] else []
      | _ \<Rightarrow> [])"

definition expect :: "char \<Rightarrow> string \<Rightarrow> string list" where
  "expect c s = (case s of x # r \<Rightarrow> if x = c then [r] else [] | [] \<Rightarrow> [])"

definition regex_matches :: "string \<Rightarrow> (int \<times> int \<times> int \<times> string) list" where
  "regex_matches s =
     [(y, m, d, r).
        (y, r0) \<leftarrow> year_alts s, r1 \<leftarrow> expect CHR ''-'' r0,
        (m, r2) \<leftarrow> month_alts r1, r3 \<leftarrow> expect CHR ''-'' r2,
        (d, r) \<leftarrow> day_alts r3]"

definition strptime :: "string \<Rightarrow> error + datetime" where
  "strptime s =
     (case regex_matches s of
        [] \<Rightarrow> Inl ValueError
      | (y, m, d, r) # _ \<Rightarrow> if r \<noteq> [] then Inl ValueError else datetime_new y m d)"

section \<open>\<^verbatim>\<open>S2S3_Submit.py\<close>: the calendar gate\<close>

text \<open>
  \<^verbatim>\<open>check_forecast_date\<close>: the date is parsed, and the run is due when the whole days
  since January 1 of the date's year are a multiple of 5. A string that does not parse
  raises \<^verbatim>\<open>ValueError\<close>.
\<close>

definition check_forecast_date :: "string \<Rightarrow> error + bool" where
  "check_forecast_date input_date =
     (case strptime input_date of
        Inl e \<Rightarrow> Inl e
      | Inr forecast_date \<Rightarrow>
          (case datetime_new (dt_year forecast_date) 1 1 of
             Inl e \<Rightarrow> Inl e
           | Inr jan_1 \<Rightarrow>
               (let days_since_jan_1 = sub_days forecast_date jan_1
                in Inr (days_since_jan_1 mod 5 = 0))))"

subsection \<open>Files and child processes\<close>

text \<open>
  The file system is a map from path strings to nodes; a regular file holds its lines as
  iterating over the open file yields them. \<^verbatim>\<open>Path.exists\<close> holds for files and
  directories, \<^verbatim>\<open>os.path.isfile\<close> for regular files only. Permissions, encodings and
  I/O failures of the operating system are not part of the model.
\<close>

datatype node = File "string list" | Dir

type_synonym filesystem = "string \<Rightarrow> node option"

definition path_exists :: "filesystem \<Rightarrow> string \<Rightarrow> bool" where
  "path_exists fs p = (fs p \<noteq> None)"

definition isfile :: "filesystem \<Rightarrow> string \<Rightarrow> bool" where
  "isfile fs p = (case fs p of Some (File ls) \<Rightarrow> True | _ \<Rightarrow> False)"

definition file_lines :: "filesystem \<Rightarrow> string \<Rightarrow> string list" where
  "file_lines fs p = (case fs p of Some (File ls) \<Rightarrow> ls | _ \<Rightarrow> [])"

text \<open>
  \<^verbatim>\<open>Path.unlink(missing_ok=True)\<close>: a missing path is not an error, a regular file is
  removed, a directory raises.
\<close>

definition unlink_missing_ok :: "filesystem \<Rightarrow> string \<Rightarrow> error + filesystem" where
  "unlink_missing_ok fs p =
     (case fs p of
        None \<Rightarrow> Inr fs
      | Some (File ls) \<Rightarrow> Inr (fs(p := None))
      | Some Dir \<Rightarrow> Inl IsADirectoryError)"

text \<open>\<^verbatim>\<open>os.path.join\<close>: an absolute component restarts the path.\<close>

definition join_step :: "string \<Rightarrow> string \<Rightarrow> string" where
  "join_step path b =
     (if starts_with ''/'' b then b
      else if path = [] \<or> last path = CHR ''/'' then path @ b
      else path @ ''/'' @ b)"

definition os_path_join :: "string \<Rightarrow> string list \<Rightarrow> string" where
  "os_path_join a ps = foldl join_step a ps"

text \<open>\<^verbatim>\<open>sep.join(parts)\<close> and \<^verbatim>\<open>s.split(sep)\<close> for a separator of one character.\<close>

fun str_join :: "string \<Rightarrow> string list \<Rightarrow> string" where
  "str_join sep [] = []"
| "str_join sep [x] = x"
| "str_join sep (x # y # ys) = x @ sep @ str_join sep (y # ys)"

fun split_on :: "char \<Rightarrow> string \<Rightarrow> string list" where
  "split_on c [] = [[]]"
| "split_on c (x # xs) =
     (if x = c then [] # split_on c xs
      else (case split_on c xs of p # ps \<Rightarrow> (x # p) # ps | [] \<Rightarrow> [[x]]))"

text \<open>
  \<^verbatim>\<open>pathlib\<close> on POSIX. A path is its root (\<open>/\<close>, or \<open>//\<close> for exactly two leading
  slashes, or none) and its parts, the components between slashes without the empty ones
  and without \<open>.\<close>; its string is the root followed by the parts joined with slashes,
  and \<open>.\<close> for the empty path. \<^verbatim>\<open>Path(a) / b\<close> is \<open>b\<close> when \<open>b\<close> is absolute, and
  otherwise the parts of \<open>b\<close> after those of \<open>a\<close>. \<open>path_of s\<close> is \<^verbatim>\<open>str(Path(s))\<close>.
\<close>

definition path_parts :: "string \<Rightarrow> string list" where
  "path_parts s = filter (\<lambda>x. x \<noteq> [] \<and> x \<noteq> ''.'') (split_on CHR ''/'' s)"

definition path_root :: "string \<Rightarrow> string" where
  "path_root s =
     (if starts_with ''//'' s \<and> \<not> starts_with ''///'' s then ''//''
      else if starts_with ''/'' s then ''/''
      else [])"

definition path_str :: "string \<Rightarrow> string list \<Rightarrow> string" where
  "path_str root parts =
     (if root = [] \<and> parts = [] then ''.'' else root @ str_join ''/'' parts)"

definition path_of :: "string \<Rightarrow> string" where
  "path_of s = path_str (path_root s) (path_parts s)"

definition path_div :: "string \<Rightarrow> string \<Rightarrow> string" where
  "path_div a b =
     (if starts_with ''/'' b then path_of b
      else path_str (path_root a) (path_parts a @ path_parts b))"

text \<open>
  A child process either runs for some seconds and ends with a return code, its standard
  output and its standard error, or cannot be started. \<^verbatim>\<open>subprocess.run\<close> gives the
  completed process, or raises \<^verbatim>\<open>TimeoutExpired\<close> once the child has run for the
  timeout, or raises the error of the failed start; the second component is the time the
  call took.
\<close>

datatype child = Runs nat int string string | SpawnFails

datatype run_result = CompletedProcess int string string | TimeoutExpired | SpawnError

fun subprocess_run :: "nat option \<Rightarrow> child \<Rightarrow> run_result \<times> nat" where
  "subprocess_run None (Runs t rc out err) = (CompletedProcess rc out err, t)"
| "subprocess_run (Some limit) (Runs t rc out err) =
     (if limit < t then (TimeoutExpired, limit) else (CompletedProcess rc out err, t))"
| "subprocess_run timeout SpawnFails = (SpawnError, 0)"

section \<open>\<^verbatim>\<open>s2s_check.py\<close>: the readiness probe\<close>

text \<open>
  \<^verbatim>\<open>main\<close> takes the three integers of the command line and the file system, and
  gives the status the process exits with; an exception of the date arithmetic is the
  \<open>Inl\<close> result. The lines printed under \<^verbatim>\<open>--verbose\<close> are left out.
\<close>

definition CMAP_path :: string where
  "CMAP_path = ''/discover/nobackup/dao_ops/PrecipCorr/CMAPcorr''"

definition CMAP_prefix :: string where
  "CMAP_prefix = ''d5124_rpit_jan12.tavg1_2d_lfo_Nx_CMAPcorr.''"

definition CMAP_file :: "datetime \<Rightarrow> error + string" where
  "CMAP_file inputday =
     (case minus_one_day (inputday\<lparr>dt_hour := 23, dt_minute := 30\<rparr>) of
        Inl e \<Rightarrow> Inl e
      | Inr CMAP_target_time \<Rightarrow>
          Inr (os_path_join ''/''
                 [CMAP_path, CMAP_prefix @ strftime_Ymd_HMz CMAP_target_time @ ''.nc4'']))"

definition anaeta_path :: string where
  "anaeta_path = ''/discover/nobackup/dao_ops/scratch/d5124_rpit_jan12/ana''"

definition anaeta_prefix :: string where
  "anaeta_prefix = ''d5124_rpit_jan12.ana.eta.''"

definition anaeta_file :: "datetime \<Rightarrow> string" where
  "anaeta_file inputday =
     (let anaeta_target_time = inputday\<lparr>dt_hour := 18\<rparr>
      in os_path_join ''/''
           [anaeta_path,
            ''Y'' @ strftime_Y (dt_year anaeta_target_time),
            ''M'' @ fmt2 (dt_month anaeta_target_time),
            anaeta_prefix @ strftime_Ymd_Hz anaeta_target_time @ ''.nc4''])"

definition OSTIA_file :: string where
  "OSTIA_file = ''/home/dao_ops/D_BOSS/schedule/files/discover36/task_status''"

definition OSTIA_string :: "datetime \<Rightarrow> string" where
  "OSTIA_string inputday =
     (let OSTIA_target_time = inputday
      in str_join '', ''
           [''QUART-OSTIA-REYNOLDS-01'',
            strftime_HM_colon OSTIA_target_time,
            strftime_Ymd_dashed OSTIA_target_time,
            ''COMPLETE''])"

text \<open>The loop over the lines of the status log: a matching line sets the flag.\<close>

definition OSTIA_scan :: "filesystem \<Rightarrow> datetime \<Rightarrow> bool" where
  "OSTIA_scan fs inputday =
     (if isfile fs OSTIA_file
      then foldl (\<lambda>found line. if str_in (OSTIA_string inputday) line then True else found)
             False (file_lines fs OSTIA_file)
      else False)"

definition main :: "filesystem \<Rightarrow> int \<Rightarrow> int \<Rightarrow> int \<Rightarrow> error + int" where
  "main fs year month day =
     (case datetime_new year month day of
        Inl e \<Rightarrow> Inl e
      | Inr inputday \<Rightarrow>
          (case CMAP_file inputday of
             Inl e \<Rightarrow> Inl e
           | Inr cmap \<Rightarrow>
               (let CMAP_found = isfile fs cmap;
                    rccode = (if CMAP_found then 0 else 0 + 1);
                    anaeta_found = isfile fs (anaeta_file inputday);
                    rccode = (if anaeta_found then rccode else rccode + 10);
                    OSTIA_found = OSTIA_scan fs inputday;
                    rccode = (if \<not> OSTIA_found then rccode + 100 else rccode)
                in if CMAP_found \<and> anaeta_found \<and> OSTIA_found then Inr 0 else Inr rccode)))"

text \<open>
  The reading of the status the specification gives: each source that is missing adds
  its own decimal place, and each place is read back on its own.
\<close>

definition status_code :: "bool \<Rightarrow> bool \<Rightarrow> bool \<Rightarrow> int" where
  "status_code a_missing b_missing c_missing =
     (if a_missing then 1 else 0) + (if b_missing then 10 else 0) + (if c_missing then 100 else 0)"

definition sourceA_missing :: "int \<Rightarrow> bool" where
  "sourceA_missing c = (c mod 10 = 1)"

definition sourceB_missing :: "int \<Rightarrow> bool" where
  "sourceB_missing c = (c div 10 mod 10 = 1)"

definition sourceC_missing :: "int \<Rightarrow> bool" where
  "sourceC_missing c = (c div 100 mod 10 = 1)"

section \<open>\<^verbatim>\<open>S2S3_Submit.py\<close>: the runner\<close>

text \<open>
  The attributes \<^verbatim>\<open>__init__\<close> sets. Paths are strings; the two timing attributes are
  whole seconds.
\<close>

record runner =
  experiment_name :: string
  base_path :: string
  experiment_dir :: string
  script_dir :: string
  forecast_dates_file :: string
  check_script :: string
  job_script :: string
  check_interval :: nat
  max_wait_time :: nat
  email_list :: "string list"

definition S2SForecastRunner_init :: "string \<Rightarrow> runner" where
  "S2SForecastRunner_init name =
     \<lparr>experiment_name = name,
      base_path = path_of ''/home/gmaofcst/geos-s2s-3'',
      experiment_dir = path_div (path_of ''/home/gmaofcst/geos-s2s-3'') name,
      script_dir = path_of ''/home/gmaofcst/ODAS/OBS/V3/D_BOSS/'',
      forecast_dates_file =
        path_div (path_of ''/home/gmaofcst/ODAS/OBS/V3/D_BOSS/'') ''forecast_dates.txt'',
      check_script = path_div (path_of ''/home/gmaofcst/ODAS/OBS/V3/D_BOSS/'') ''s2s_check.py'',
      job_script =
        path_div (path_div (path_of ''/home/gmaofcst/geos-s2s-3'') name) ''gcm_run.j'',
      check_interval = 900,
      max_wait_time = 7200,
      email_list = [''wesley.j.davis@nasa.gov'']\<rparr>"

text \<open>
  What a run leaves behind: the file system, the calls of \<^verbatim>\<open>send_notification\<close> (each
  with the subject and body it built), the command lines of the probe invocations, and
  for each invocation of the scheduler its command line, its working directory and the
  file system it found. The environment gives the behaviour of the \<open>i\<close>-th invocation of
  the probe for a command line, and the behaviour of the scheduler command.
\<close>

record notification =
  n_success :: bool
  n_subject :: string
  n_body :: string
  n_recipients :: "string list"

record world =
  w_fs :: filesystem
  w_notifications :: "notification list"
  w_probe_calls :: "string list list"
  w_sbatch_calls :: "(string list \<times> string \<times> filesystem) list"

record env =
  env_probe :: "string list \<Rightarrow> nat \<Rightarrow> child"
  env_sbatch :: child

definition validate_experiment :: "runner \<Rightarrow> filesystem \<Rightarrow> bool" where
  "validate_experiment r fs =
     (if \<not> path_exists fs (experiment_dir r) then False
      else
        (let required_files = [forecast_dates_file r, check_script r, job_script r];
             missing_files = filter (\<lambda>file_path. \<not> path_exists fs file_path) required_files
         in if missing_files \<noteq> [] then False else True))"

subsection \<open>\<^verbatim>\<open>wait_for_files\<close>\<close>

text \<open>
  The loop of \<^verbatim>\<open>wait_for_files\<close>. \<open>now\<close> is \<^verbatim>\<open>time.time() - start_time\<close> at the loop
  test and \<open>i\<close> the number of probe invocations so far; the clock advances by the time
  each \<^verbatim>\<open>subprocess.run\<close> takes and by each \<^verbatim>\<open>time.sleep\<close>. The loop has no bound of
  its own on the number of rounds, so the result is an option: \<open>None\<close> is a loop that
  never ends.
\<close>

record wait_result =
  wr_ready :: bool
  wr_attempts :: nat
  wr_elapsed :: nat

partial_function (option) poll_loop :: "runner \<Rightarrow> (nat \<Rightarrow> child) \<Rightarrow> nat \<Rightarrow> nat \<Rightarrow> wait_result option" where
  "poll_loop r probe i now =
     (if now < max_wait_time r then
        (case subprocess_run (Some 300) (probe i) of
           (CompletedProcess returncode out err, t) \<Rightarrow>
             if returncode = 0
             then Some \<lparr>wr_ready = True, wr_attempts = Suc i, wr_elapsed = now + t\<rparr>
             else poll_loop r probe (Suc i) (now + t + check_interval r)
         | (TimeoutExpired, t) \<Rightarrow> poll_loop r probe (Suc i) (now + t + check_interval r)
         | (SpawnError, t) \<Rightarrow> poll_loop r probe (Suc i) (now + t + check_interval r))
      else Some \<lparr>wr_ready = False, wr_attempts = i, wr_elapsed = now\<rparr>)"

declare poll_loop.simps [code]

text \<open>
  The course of the loop in the words of the specification: an attempt is ready when the
  probe ends with status 0 inside its own timeout; an attempt that is not ready costs
  the time of the probe call plus the sleep; the \<open>k\<close>-th attempt starts when the attempts
  before it have been paid for, counted from the one start time.
\<close>

definition probe_time :: "child \<Rightarrow> nat" where
  "probe_time c = snd (subprocess_run (Some 300) c)"

definition probe_ready :: "child \<Rightarrow> bool" where
  "probe_ready c =
     (case fst (subprocess_run (Some 300) c) of
        CompletedProcess returncode out err \<Rightarrow> returncode = 0
      | TimeoutExpired \<Rightarrow> False
      | SpawnError \<Rightarrow> False)"

definition attempt_cost :: "runner \<Rightarrow> child \<Rightarrow> nat" where
  "attempt_cost r c = probe_time c + check_interval r"

primrec start_of_attempt :: "runner \<Rightarrow> (nat \<Rightarrow> child) \<Rightarrow> nat \<Rightarrow> nat" where
  "start_of_attempt r probe 0 = 0"
| "start_of_attempt r probe (Suc k) = start_of_attempt r probe k + attempt_cost r (probe k)"

definition check_cmd :: "runner \<Rightarrow> datetime \<Rightarrow> string list" where
  "check_cmd r dt =
     [check_script r, ''--verbose'',
      ''--year'', str_of_int (dt_year dt),
      ''--month'', str_of_int (dt_month dt),
      ''--day'', str_of_int (dt_day dt)]"

definition wait_for_files ::
  "runner \<Rightarrow> env \<Rightarrow> string \<Rightarrow> world \<Rightarrow> ((error + wait_result) \<times> world) option" where
  "wait_for_files r e forecast_date w =
     (case strptime forecast_date of
        Inl err \<Rightarrow> Some (Inl err, w)
      | Inr dt \<Rightarrow>
          (case poll_loop r (env_probe e (check_cmd r dt)) 0 0 of
             None \<Rightarrow> None
           | Some res \<Rightarrow>
               Some (Inr res,
                 w\<lparr>w_probe_calls :=
                     w_probe_calls w @ replicate (wr_attempts res) (check_cmd r dt)\<rparr>)))"

subsection \<open>\<^verbatim>\<open>submit_job\<close> and \<^verbatim>\<open>send_notification\<close>\<close>

definition marker_file :: "runner \<Rightarrow> string" where
  "marker_file r = path_div (experiment_dir r) ''ODAS_Check.txt''"

text \<open>
  The body of \<^verbatim>\<open>submit_job\<close> stands in one \<^verbatim>\<open>try\<close>: an exception of the clean-up or
  of the scheduler call gives \<^verbatim>\<open>(False, None)\<close>, as a nonzero return code does.
\<close>

definition submit_job :: "runner \<Rightarrow> env \<Rightarrow> world \<Rightarrow> (bool \<times> string option) \<times> world" where
  "submit_job r e w =
     (case unlink_missing_ok (w_fs w) (marker_file r) of
        Inl err \<Rightarrow> ((False, None), w)
      | Inr fs' \<Rightarrow>
          (let w' = w\<lparr>w_fs := fs',
                      w_sbatch_calls := w_sbatch_calls w @
                        [([''/usr/bin/sbatch'', job_script r], experiment_dir r, fs')]\<rparr>
           in case fst (subprocess_run None (env_sbatch e)) of
                CompletedProcess returncode out err \<Rightarrow>
                  if returncode = 0 then ((True, Some (strip out)), w')
                  else ((False, None), w')
              | TimeoutExpired \<Rightarrow> ((False, None), w')
              | SpawnError \<Rightarrow> ((False, None), w')))"

definition newline :: string where
  "newline = [CHR 0x0A]"

definition send_notification ::
  "runner \<Rightarrow> bool \<Rightarrow> string \<Rightarrow> string option \<Rightarrow> world \<Rightarrow> world" where
  "send_notification r success message job_id w =
     (let subject =
            (if success then ''V2 ODAS Run Submitted - '' @ experiment_name r
             else ''V2 ODAS Run Failed - '' @ experiment_name r);
          body =
            (if success
             then ''V2 ODAS Run Submitted for experiment: '' @ experiment_name r @
               (case job_id of
                  None \<Rightarrow> []
                | Some j \<Rightarrow> if j \<noteq> [] then newline @ ''Job ID: '' @ j else [])
             else ''V2 ODAS Run Failed for experiment: '' @ experiment_name r @
               newline @ ''Error: '' @ message)
      in w\<lparr>w_notifications := w_notifications w @
            [\<lparr>n_success = success, n_subject = subject, n_body = body,
              n_recipients = email_list r\<rparr>]\<rparr>)"

subsection \<open>\<^verbatim>\<open>run\<close> and the entry point\<close>

text \<open>
  \<^verbatim>\<open>run\<close> gives the value it returns, or the exception that leaves it, with the world
  at that moment. Nothing in \<^verbatim>\<open>run\<close> or in the entry point catches an exception.
\<close>

definition run :: "runner \<Rightarrow> env \<Rightarrow> string \<Rightarrow> world \<Rightarrow> ((error + int) \<times> world) option" where
  "run r e forecast_date w =
     (if \<not> validate_experiment r (w_fs w)
      then Some (Inr 1, send_notification r False ''Experiment validation failed'' None w)
      else
        (case check_forecast_date forecast_date of
           Inl err \<Rightarrow> Some (Inl err, w)
         | Inr due \<Rightarrow>
             if \<not> due then Some (Inr 0, w)
             else
               (case wait_for_files r e forecast_date w of
                  None \<Rightarrow> None
                | Some (Inl err, w1) \<Rightarrow> Some (Inl err, w1)
                | Some (Inr res, w1) \<Rightarrow>
                    if \<not> wr_ready res
                    then Some (Inr 1,
                      send_notification r False ''Timeout waiting for input files'' None w1)
                    else
                      (case submit_job r e w1 of
                         ((success, job_id), w2) \<Rightarrow>
                           if \<not> success
                           then Some (Inr 1,
                             send_notification r False ''Job submission failed'' None w2)
                           else Some (Inr 0, send_notification r True [] job_id w2)))))"



section \<open>Example runs\<close>

text \<open>
  An experiment whose directory and files are in place, with a marker file of an earlier
  run, and the behaviours of the probe and of the scheduler in the scenarios of the
  specification: a probe that is ready at once, one that is never ready and takes just
  under its timeout, one that fails to start, then runs into its timeout, then reports
  two missing sources and is ready at the fourth attempt; a scheduler that accepts the
  job and one that rejects it.
\<close>

definition example_runner :: runner where
  "example_runner = S2SForecastRunner_init ''S2S-2_1_ANA_002''"

definition example_fs :: filesystem where
  "example_fs =
     [''/home/gmaofcst/geos-s2s-3/S2S-2_1_ANA_002'' \<mapsto> Dir,
      ''/home/gmaofcst/ODAS/OBS/V3/D_BOSS/forecast_dates.txt'' \<mapsto> File [],
      ''/home/gmaofcst/ODAS/OBS/V3/D_BOSS/s2s_check.py'' \<mapsto> File [],
      ''/home/gmaofcst/geos-s2s-3/S2S-2_1_ANA_002/gcm_run.j'' \<mapsto> File [],
      ''/home/gmaofcst/geos-s2s-3/S2S-2_1_ANA_002/ODAS_Check.txt'' \<mapsto> File [''stale'']]"

definition example_world :: world where
  "example_world =
     \<lparr>w_fs = example_fs, w_notifications = [], w_probe_calls = [], w_sbatch_calls = []\<rparr>"

definition ready_probe :: "string list \<Rightarrow> nat \<Rightarrow> child" where
  "ready_probe cmd i = Runs 2 0 [] []"

definition slow_probe :: "string list \<Rightarrow> nat \<Rightarrow> child" where
  "slow_probe cmd i = Runs 299 1 [] []"

definition flaky_probe :: "string list \<Rightarrow> nat \<Rightarrow> child" where
  "flaky_probe cmd i =
     (if i = 0 then SpawnFails
      else if i = 1 then Runs 400 0 [] []
      else if i = 2 then Runs 5 110 [] []
      else Runs 5 0 [] [])"

definition accepting_sbatch :: child where
  "accepting_sbatch = Runs 1 0 (''123456'' @ newline) []"

definition rejecting_sbatch :: child where
  "rejecting_sbatch = Runs 1 1 [] ''QOS limit exceeded''"

section \<open>About \<^verbatim>\<open>strptime\<close> and the calendar\<close>

lemma digit_range: "0 \<le> (j::int) \<Longrightarrow> j < 10 \<Longrightarrow>
  j = 0 \<or> j = 1 \<or> j = 2 \<or> j = 3 \<or> j = 4 \<or> j = 5 \<or> j = 6 \<or> j = 7 \<or> j = 8 \<or> j = 9"
  by presburger

lemma month_range: "1 \<le> (m::int) \<Longrightarrow> m \<le> 12 \<Longrightarrow>
  m = 1 \<or> m = 2 \<or> m = 3 \<or> m = 4 \<or> m = 5 \<or> m = 6 \<or> m = 7 \<or> m = 8 \<or> m = 9
  \<or> m = 10 \<or> m = 11 \<or> m = 12"
  by presburger

lemma day_range: "1 \<le> (d::int) \<Longrightarrow> d \<le> 31 \<Longrightarrow>
  d = 1 \<or> d = 2 \<or> d = 3 \<or> d = 4 \<or> d = 5 \<or> d = 6 \<or> d = 7 \<or> d = 8 \<or> d = 9
  \<or> d = 10 \<or> d = 11 \<or> d = 12 \<or> d = 13 \<or> d = 14 \<or> d = 15 \<or> d = 16 \<or> d = 17
  \<or> d = 18 \<or> d = 19 \<or> d = 20 \<or> d = 21 \<or> d = 22 \<or> d = 23 \<or> d = 24 \<or> d = 25
  \<or> d = 26 \<or> d = 27 \<or> d = 28 \<or> d = 29 \<or> d = 30 \<or> d = 31"
  by presburger

lemma is_digit_digit_char: "is_digit (digit_char k)"
proof -
  have "0 \<le> k mod 10" "k mod 10 < 10" by simp_all
  from digit_range [OF this] show ?thesis
    by (elim disjE) (simp_all add: is_digit_def digit_char_def)
qed

lemma digit_of_digit_char: "digit_of (digit_char k) = k mod 10"
proof -
  have "0 \<le> k mod 10" "k mod 10 < 10" by simp_all
  from digit_range [OF this] show ?thesis
    by (elim disjE) (simp_all add: digit_of_def digit_char_def)
qed

lemma four_digits:
  fixes y :: int
  assumes "0 \<le> y" "y < 10000"
  shows "1000 * (y div 1000 mod 10) + 100 * (y div 100 mod 10) + 10 * (y div 10 mod 10) + y mod 10 = y"
proof -
  have a: "y div 1000 mod 10 = y div 1000" using assms by simp
  have b: "y div 100 = 10 * (y div 1000) + y div 100 mod 10"
    using zdiv_zmult2_eq [of 10 y 100] by simp
  have c: "y div 10 = 10 * (y div 100) + y div 10 mod 10"
    using zdiv_zmult2_eq [of 10 y 10] by simp
  have d: "y = 10 * (y div 10) + y mod 10" by simp
  show ?thesis using a b c d by linarith
qed

lemma year_alts_fmt4:
  assumes "0 \<le> y" "y < 10000"
  shows "year_alts (fmt4 y @ r) = [(y, r)]"
proof -
  have "year_alts (fmt4 y @ r)
      = [(1000 * (y div 1000 mod 10) + 100 * (y div 100 mod 10) + 10 * (y div 10 mod 10) + y mod 10, r)]"
    by (simp add: year_alts_def fmt4_def is_digit_digit_char digit_of_digit_char)
  then show ?thesis
    by (simp only: four_digits [OF assms])
qed

lemma month_alts_fmt2:
  assumes "1 \<le> m" "m \<le> 12"
  shows "\<exists>more. month_alts (fmt2 m @ r) = (m, r) # more"
  using month_range [OF assms]
  by (elim disjE) (simp_all add: month_alts_def fmt2_def digit_char_def digit_of_def)

lemma day_alts_fmt2:
  assumes "1 \<le> d" "d \<le> 31"
  shows "\<exists>more. day_alts (fmt2 d) = (d, []) # more"
  using day_range [OF assms]
  by (elim disjE) (simp_all add: day_alts_def fmt2_def digit_char_def digit_of_def is_digit_def)

lemma days_in_month_le_31:
  assumes "1 \<le> m" "m \<le> 12"
  shows "days_in_month y m \<le> 31"
  using month_range [OF assms]
  by (elim disjE) (simp_all add: days_in_month_def DAYS_IN_MONTH_def)

lemma regex_matches_iso_date:
  assumes "valid_ymd y m d"
  shows "\<exists>more. regex_matches (iso_date y m d) = (y, m, d, []) # more"
proof -
  from assms have y: "0 \<le> y" "y < 10000" and m: "1 \<le> m" "m \<le> 12" and d1: "1 \<le> d"
    and dm: "d \<le> days_in_month y m"
    by (simp_all add: valid_ymd_def)
  from dm days_in_month_le_31 [OF m, of y] have d31: "d \<le> 31" by linarith
  obtain mm where mm: "month_alts (fmt2 m @ CHR ''-'' # fmt2 d) = (m, CHR ''-'' # fmt2 d) # mm"
    using month_alts_fmt2 [OF m] by blast
  obtain dd where dd: "day_alts (fmt2 d) = (d, []) # dd"
    using day_alts_fmt2 [OF d1 d31] by blast
  have ya: "year_alts (fmt4 y @ CHR ''-'' # fmt2 m @ CHR ''-'' # fmt2 d)
        = [(y, CHR ''-'' # fmt2 m @ CHR ''-'' # fmt2 d)]"
    by (rule year_alts_fmt4 [OF y])
  show ?thesis
    by (simp add: regex_matches_def iso_date_def ya mm dd expect_def)
qed

text \<open>Every date of the calendar has a string that parses to it: its ISO form.\<close>

lemma strptime_iso_date:
  assumes "valid_ymd y m d"
  shows "strptime (iso_date y m d)
    = Inr \<lparr>dt_year = y, dt_month = m, dt_day = d, dt_hour = 0, dt_minute = 0\<rparr>"
proof -
  obtain more where "regex_matches (iso_date y m d) = (y, m, d, []) # more"
    using regex_matches_iso_date [OF assms] by blast
  then show ?thesis
    using assms by (simp add: strptime_def datetime_new_def)
qed

text \<open>What \<^verbatim>\<open>strptime\<close> returns is a date of the calendar, at midnight.\<close>

lemma strptime_Inr:
  assumes "strptime s = Inr D"
  shows "valid_ymd (dt_year D) (dt_month D) (dt_day D) \<and> dt_hour D = 0 \<and> dt_minute D = 0"
  using assms
  by (auto simp add: strptime_def datetime_new_def split: list.splits if_splits)

lemma valid_ymd_jan_1: "valid_ymd y m d \<Longrightarrow> valid_ymd y 1 1"
  by (simp add: valid_ymd_def days_in_month_def DAYS_IN_MONTH_def)

lemma check_forecast_date_parsed:
  assumes "strptime s = Inr D"
  shows "check_forecast_date s
    = Inr ((ymd2ord (dt_year D) (dt_month D) (dt_day D) - ymd2ord (dt_year D) 1 1) mod 5 = 0)"
proof -
  from strptime_Inr [OF assms] have v: "valid_ymd (dt_year D) (dt_month D) (dt_day D)"
    and t: "dt_hour D = 0" "dt_minute D = 0" by simp_all
  from valid_ymd_jan_1 [OF v] have "valid_ymd (dt_year D) 1 1" .
  then show ?thesis
    using assms t
    by (simp add: check_forecast_date_def datetime_new_def sub_days_def toordinal_def
        minute_of_day_def)
qed

lemma check_forecast_date_unparsed:
  "strptime s = Inl err \<Longrightarrow> check_forecast_date s = Inl err"
  by (simp add: check_forecast_date_def)

lemma day_offset:
  assumes "1 \<le> m" "m \<le> 12"
  shows "ymd2ord y m d - ymd2ord y 1 1 = (\<Sum>k\<leftarrow>[1..m - 1]. days_in_month y k) + (d - 1)"
  using month_range [OF assms]
  by (elim disjE)
     (simp_all add: ymd2ord_def days_before_month_def DAYS_BEFORE_MONTH_def days_in_month_def
        DAYS_IN_MONTH_def upto_rec1)

lemma div_step:
  fixes y k :: int
  assumes "0 < k"
  shows "y div k - (y - 1) div k = (if y mod k = 0 then 1 else 0)"
proof (cases "y mod k = 0")
  case True
  have "y = k * (y div k) + y mod k" by simp
  with True have "y - 1 = (k - 1) + k * (y div k - 1)" by (simp add: algebra_simps)
  then have "(y - 1) div k = ((k - 1) + k * (y div k - 1)) div k"
    by (rule arg_cong [where f = "\<lambda>x. x div k"])
  also have "\<dots> = (y div k - 1) + (k - 1) div k"
    using assms by (simp only: div_mult_self2)
  also have "(k - 1) div k = 0" using assms by (simp add: div_pos_pos_trivial)
  finally show ?thesis using True by simp
next
  case False
  have r: "0 \<le> y mod k" "y mod k < k" using assms by simp_all
  with False have r1: "0 \<le> y mod k - 1" "y mod k - 1 < k" by simp_all
  have "y = k * (y div k) + y mod k" by simp
  then have "y - 1 = (y mod k - 1) + k * (y div k)" by (simp add: algebra_simps)
  then have "(y - 1) div k = ((y mod k - 1) + k * (y div k)) div k"
    by (rule arg_cong [where f = "\<lambda>x. x div k"])
  also have "\<dots> = y div k + (y mod k - 1) div k"
    using assms by (simp only: div_mult_self2)
  also have "(y mod k - 1) div k = 0" using r1 by (simp add: div_pos_pos_trivial)
  finally show ?thesis using False by simp
qed

lemma leap_count:
  assumes "C \<Longrightarrow> B" "B \<Longrightarrow> A"
  shows "365 + (if A then 1 else 0) - (if B then 1 else 0) + (if C then 1 else 0)
    = (if A \<and> (\<not> B \<or> C) then 366 else (365::int))"
  using assms by (cases A; cases B; cases C; simp)

lemma year_length:
  "ymd2ord (y + 1) 1 1 - ymd2ord y 1 1 = (if is_leap y then 366 else 365)"
proof -
  have a: "y div 4 - (y - 1) div 4 = (if y mod 4 = 0 then 1 else 0)"
    by (rule div_step) simp
  have b: "y div 100 - (y - 1) div 100 = (if y mod 100 = 0 then 1 else 0)"
    by (rule div_step) simp
  have c: "y div 400 - (y - 1) div 400 = (if y mod 400 = 0 then 1 else 0)"
    by (rule div_step) simp
  have d1: "y mod 400 = 0 \<Longrightarrow> y mod 100 = 0"
    using dvd_trans [of 100 400 y] by (simp add: mod_eq_0_iff_dvd)
  have d2: "y mod 100 = 0 \<Longrightarrow> y mod 4 = 0"
    using dvd_trans [of 4 100 y] by (simp add: mod_eq_0_iff_dvd)
  have "ymd2ord (y + 1) 1 1 - ymd2ord y 1 1
      = 365 + (y div 4 - (y - 1) div 4) - (y div 100 - (y - 1) div 100)
          + (y div 400 - (y - 1) div 400)"
    by (simp add: ymd2ord_def days_before_year_def days_before_month_def DAYS_BEFORE_MONTH_def
        Let_def algebra_simps)
  also have "\<dots> = (if is_leap y then 366 else 365)"
    unfolding a b c is_leap_def by (rule leap_count [OF d1 d2])
  finally show ?thesis .
qed

lemma dec_31_offset: "ymd2ord y 12 31 - ymd2ord y 1 1 = (if is_leap y then 365 else 364)"
  by (simp add: ymd2ord_def days_before_month_def DAYS_BEFORE_MONTH_def)

text \<open>
  C2. For every date of every year, \<^verbatim>\<open>check_forecast_date\<close> holds exactly when the whole
  days since January 1 of that year are divisible by 5, those days being the lengths of
  the months before plus the days before in the month. January 1 is due in every year. The
  count starts again each year: December 31 is due exactly in leap years, January 1 of
  the next year is due in either case, although the two January 1 are 365 or 366 days
  apart.
\<close>

theorem check_forecast_date_every_fifth_day_of_year:
  assumes "valid_ymd y m d"
  shows "check_forecast_date (iso_date y m d) = Inr (5 dvd (ymd2ord y m d - ymd2ord y 1 1))
    \<and> ymd2ord y m d - ymd2ord y 1 1 = (\<Sum>k\<leftarrow>[1..m - 1]. days_in_month y k) + (d - 1)
    \<and> check_forecast_date (iso_date y 1 1) = Inr True
    \<and> check_forecast_date (iso_date y 12 31) = Inr (is_leap y)
    \<and> (y < 9999 \<longrightarrow> check_forecast_date (iso_date (y + 1) 1 1) = Inr True)
    \<and> ymd2ord (y + 1) 1 1 - ymd2ord y 1 1 = (if is_leap y then 366 else 365)"
proof -
  from assms have y: "1 \<le> y" "y \<le> 9999" and m: "1 \<le> m" "m \<le> 12"
    by (simp_all add: valid_ymd_def)
  have jan: "valid_ymd y 1 1" by (rule valid_ymd_jan_1 [OF assms])
  have dec: "valid_ymd y 12 31"
    using y by (simp add: valid_ymd_def days_in_month_def DAYS_IN_MONTH_def)
  have c1: "check_forecast_date (iso_date y m d) = Inr (5 dvd (ymd2ord y m d - ymd2ord y 1 1))"
    using check_forecast_date_parsed [OF strptime_iso_date [OF assms]]
    by (simp add: dvd_eq_mod_eq_0)
  have c2: "ymd2ord y m d - ymd2ord y 1 1 = (\<Sum>k\<leftarrow>[1..m - 1]. days_in_month y k) + (d - 1)"
    by (rule day_offset [OF m])
  have c3: "check_forecast_date (iso_date y 1 1) = Inr True"
    using check_forecast_date_parsed [OF strptime_iso_date [OF jan]] by simp
  have c4: "check_forecast_date (iso_date y 12 31) = Inr (is_leap y)"
    using check_forecast_date_parsed [OF strptime_iso_date [OF dec]]
    by (simp add: dec_31_offset)
  have c5: "y < 9999 \<longrightarrow> check_forecast_date (iso_date (y + 1) 1 1) = Inr True"
  proof
    assume "y < 9999"
    with y have "valid_ymd (y + 1) 1 1"
      by (simp add: valid_ymd_def days_in_month_def DAYS_IN_MONTH_def)
    from check_forecast_date_parsed [OF strptime_iso_date [OF this]]
    show "check_forecast_date (iso_date (y + 1) 1 1) = Inr True" by simp
  qed
  from c1 c2 c3 c4 c5 year_length [of y] show ?thesis by blast
qed

theorem check_forecast_date_every_fifth_day_of_year_witness:
  "valid_ymd 2024 12 31
    \<and> check_forecast_date ''2024-12-31'' = Inr True
    \<and> ymd2ord 2024 12 31 - ymd2ord 2024 1 1 = 365
    \<and> check_forecast_date ''2024-01-01'' = Inr True
    \<and> check_forecast_date ''2025-01-01'' = Inr True
    \<and> ymd2ord 2025 1 1 - ymd2ord 2024 1 1 = 366"
proof -
  have v: "valid_ymd 2024 12 31"
    by (simp add: valid_ymd_def days_in_month_def DAYS_IN_MONTH_def)
  have l: "is_leap 2024" by (simp add: is_leap_def)
  have s: "iso_date 2024 12 31 = ''2024-12-31''" "iso_date 2024 1 1 = ''2024-01-01''"
    "iso_date 2025 1 1 = ''2025-01-01''"
    by (simp_all add: iso_date_def fmt4_def fmt2_def digit_char_def)
  have o: "(1::int) + 365 = 366" "(2024::int) + 1 = 2025" by simp_all
  from check_forecast_date_every_fifth_day_of_year [OF v] v l show ?thesis
    by (simp add: s dec_31_offset)
qed

section \<open>About the readiness probe\<close>

lemma starts_with_iff: "starts_with pat s \<longleftrightarrow> (\<exists>post. s = pat @ post)"
  by (induction pat s rule: starts_with.induct) auto

lemma str_in_iff: "str_in pat s \<longleftrightarrow> (\<exists>pre post. s = pre @ pat @ post)"
proof (induction s)
  case Nil
  show ?case by auto
next
  case (Cons c cs)
  have "(\<exists>pre post. c # cs = pre @ pat @ post)
      \<longleftrightarrow> (\<exists>post. c # cs = pat @ post) \<or> (\<exists>pre post. cs = pre @ pat @ post)"
    (is "?L \<longleftrightarrow> ?A \<or> ?B")
  proof
    assume ?L
    then obtain pre post where e: "c # cs = pre @ pat @ post" by blast
    show "?A \<or> ?B"
    proof (cases pre)
      case Nil
      with e show ?thesis by auto
    next
      case (Cons p pre')
      with e have "cs = pre' @ pat @ post" by simp
      then show ?thesis by blast
    qed
  next
    assume "?A \<or> ?B"
    then show ?L
    proof
      assume ?A
      then obtain post where "c # cs = [] @ pat @ post" by auto
      then show ?L by blast
    next
      assume ?B
      then obtain pre post where "cs = pre @ pat @ post" by blast
      then have "c # cs = (c # pre) @ pat @ post" by simp
      then show ?L by blast
    qed
  qed
  with Cons show ?case by (simp add: starts_with_iff)
qed

lemma scan_foldl:
  "foldl (\<lambda>found line. if P line then True else found) b ls \<longleftrightarrow> b \<or> (\<exists>l\<in>set ls. P l)"
  by (induction ls arbitrary: b) auto

lemma OSTIA_scan_iff:
  "OSTIA_scan fs D \<longleftrightarrow>
     (\<exists>ls. fs OSTIA_file = Some (File ls) \<and> (\<exists>l\<in>set ls. str_in (OSTIA_string D) l))"
  by (auto simp add: OSTIA_scan_def isfile_def file_lines_def scan_foldl
      split: option.splits node.splits)

lemma OSTIA_string_midnight:
  assumes "dt_hour D = 0" "dt_minute D = 0"
  shows "OSTIA_string D
    = ''QUART-OSTIA-REYNOLDS-01, 00:00, '' @ strftime_Y (dt_year D) @ ''-''
        @ fmt2 (dt_month D) @ ''-'' @ fmt2 (dt_day D) @ '', COMPLETE''"
  using assms
  by (simp add: OSTIA_string_def strftime_HM_colon_def strftime_Ymd_dashed_def fmt2_def
      digit_char_def)

text \<open>
  The year of \<^verbatim>\<open>%Y\<close> has four digits from the year 1000 on, and fewer before; it is
  never empty and ends with a digit.
\<close>

lemma strftime_Y_four_digits: "1000 \<le> y \<Longrightarrow> strftime_Y y = fmt4 y"
  by (simp add: strftime_Y_def str_of_int_def)

lemma strftime_Y_short: "y < 1000 \<Longrightarrow> length (strftime_Y y) < 4"
  by (simp add: strftime_Y_def str_of_int_def fmt2_def)

lemma strftime_Y_last: "strftime_Y y \<noteq> [] \<and> last (strftime_Y y) = digit_char y"
  by (simp add: strftime_Y_def str_of_int_def fmt2_def fmt4_def)

lemma strftime_Ymd_dashed_iso:
  "1000 \<le> dt_year t \<Longrightarrow>
     strftime_Ymd_dashed t = iso_date (dt_year t) (dt_month t) (dt_day t)"
  by (simp add: strftime_Ymd_dashed_def iso_date_def strftime_Y_four_digits)

lemma digit_char_not_slash: "digit_char k \<noteq> CHR ''/''"
  using is_digit_digit_char [of k] by (auto simp add: is_digit_def)

lemma CMAP_file_form:
  assumes "minus_one_day (D\<lparr>dt_hour := 23, dt_minute := 30\<rparr>) = Inr T"
  shows "CMAP_file D = Inr (CMAP_path @ ''/'' @ CMAP_prefix @ strftime_Ymd_HMz T @ ''.nc4'')"
  using assms
  by (simp add: CMAP_file_def os_path_join_def join_step_def CMAP_path_def CMAP_prefix_def)

lemma anaeta_file_form:
  "anaeta_file D = anaeta_path @ ''/Y'' @ strftime_Y (dt_year D) @ ''/M'' @ fmt2 (dt_month D)
     @ ''/'' @ anaeta_prefix @ strftime_Ymd_Hz (D\<lparr>dt_hour := 18\<rparr>) @ ''.nc4''"
proof -
  let ?Y = "strftime_Y (dt_year D)"
  let ?f = "anaeta_prefix @ strftime_Ymd_Hz (D\<lparr>dt_hour := 18\<rparr>) @ ''.nc4''"
  have 1: "join_step ''/'' anaeta_path = anaeta_path"
    by (simp add: join_step_def anaeta_path_def)
  have 2: "join_step anaeta_path (''Y'' @ ?Y) = anaeta_path @ ''/Y'' @ ?Y"
    by (simp add: join_step_def anaeta_path_def)
  have "last (anaeta_path @ ''/Y'' @ ?Y) = digit_char (dt_year D)"
    using strftime_Y_last [of "dt_year D"] by simp
  then have 3: "join_step (anaeta_path @ ''/Y'' @ ?Y) (''M'' @ fmt2 (dt_month D))
      = anaeta_path @ ''/Y'' @ ?Y @ ''/M'' @ fmt2 (dt_month D)"
    by (simp add: join_step_def digit_char_not_slash)
  have 4: "join_step (anaeta_path @ ''/Y'' @ ?Y @ ''/M'' @ fmt2 (dt_month D)) ?f
      = anaeta_path @ ''/Y'' @ ?Y @ ''/M'' @ fmt2 (dt_month D) @ ''/'' @ ?f"
    by (simp add: join_step_def anaeta_prefix_def fmt2_def digit_char_not_slash)
  have sel: "dt_year (D\<lparr>dt_hour := 18\<rparr>) = dt_year D"
    "dt_month (D\<lparr>dt_hour := 18\<rparr>) = dt_month D" by simp_all
  show ?thesis
    by (simp only: anaeta_file_def os_path_join_def Let_def foldl.simps sel 1 2 3 4)
qed

lemma minus_one_day_Inr:
  assumes "\<not> (dt_year D = 1 \<and> dt_month D = 1 \<and> dt_day D = 1)"
    and "valid_ymd (dt_year D) (dt_month D) (dt_day D)"
  shows "\<exists>T. minus_one_day D = Inr T"
  using assms by (auto simp add: minus_one_day_def valid_ymd_def)

lemma minus_one_day_first_day:
  "dt_year D = 1 \<Longrightarrow> dt_month D = 1 \<Longrightarrow> dt_day D = 1 \<Longrightarrow> minus_one_day D = Inl OverflowError"
  by (simp add: minus_one_day_def)

text \<open>The three paths the probe looks at are different paths.\<close>

lemma probe_paths_distinct:
  assumes "CMAP_file D = Inr cmap"
  shows "cmap \<noteq> anaeta_file D \<and> cmap \<noteq> OSTIA_file \<and> anaeta_file D \<noteq> OSTIA_file"
proof -
  from assms obtain T where "minus_one_day (D\<lparr>dt_hour := 23, dt_minute := 30\<rparr>) = Inr T"
    by (auto simp add: CMAP_file_def split: sum.splits)
  from CMAP_file_form [OF this] assms
  have c: "cmap = CMAP_path @ ''/'' @ CMAP_prefix @ strftime_Ymd_HMz T @ ''.nc4''" by simp
  show ?thesis
    unfolding c anaeta_file_form
    by (simp add: CMAP_path_def anaeta_path_def OSTIA_file_def)
qed

text \<open>
  The day before, as \<^verbatim>\<open>minus_one_day\<close> computes it, is the day whose ordinal is one
  less.
\<close>

lemma days_before_month_step:
  assumes "2 \<le> m" "m \<le> 12"
  shows "days_before_month y m = days_before_month y (m - 1) + days_in_month y (m - 1)"
proof -
  from assms have "1 \<le> m" by simp
  from month_range [OF this assms(2)] assms(1) show ?thesis
    by (elim disjE)
       (simp_all add: days_before_month_def DAYS_BEFORE_MONTH_def days_in_month_def
          DAYS_IN_MONTH_def)
qed

lemma toordinal_minus_one_day:
  assumes "minus_one_day D = Inr T" "1 \<le> dt_month D" "dt_month D \<le> 12" "1 \<le> dt_day D"
  shows "toordinal T = toordinal D - 1"
proof (cases "dt_day D > 1")
  case True
  with assms show ?thesis
    by (auto simp add: minus_one_day_def toordinal_def ymd2ord_def)
next
  case False
  with assms have d: "dt_day D = 1" by simp
  show ?thesis
  proof (cases "dt_month D > 1")
    case True
    then have "2 \<le> dt_month D" by simp
    from days_before_month_step [OF this assms(3)] assms(1) d True show ?thesis
      by (auto simp add: minus_one_day_def toordinal_def ymd2ord_def)
  next
    case False
    with assms have m: "dt_month D = 1" by simp
    from year_length [of "dt_year D - 1"] dec_31_offset [of "dt_year D - 1"]
    have "ymd2ord (dt_year D - 1) 12 31 = ymd2ord (dt_year D) 1 1 - 1"
      by (simp split: if_splits)
    with assms(1) d m show ?thesis
      by (auto simp add: minus_one_day_def toordinal_def split: if_splits)
  qed
qed

lemma probe_reaches_checks:
  assumes "valid_ymd y m d" and "\<not> (y = 1 \<and> m = 1 \<and> d = 1)"
  shows "\<exists>D cmap. datetime_new y m d = Inr D \<and> CMAP_file D = Inr cmap
    \<and> dt_year D = y \<and> dt_month D = m \<and> dt_day D = d \<and> dt_hour D = 0 \<and> dt_minute D = 0"
proof -
  let ?D = "\<lparr>dt_year = y, dt_month = m, dt_day = d, dt_hour = 0, dt_minute = 0\<rparr>"
  have D: "datetime_new y m d = Inr ?D" using assms(1) by (simp add: datetime_new_def)
  have "\<exists>T. minus_one_day (?D\<lparr>dt_hour := 23, dt_minute := 30\<rparr>) = Inr T"
    by (rule minus_one_day_Inr) (use assms in simp_all)
  then obtain T where "minus_one_day (?D\<lparr>dt_hour := 23, dt_minute := 30\<rparr>) = Inr T" ..
  from CMAP_file_form [OF this] D show ?thesis by simp
qed

lemma main_status:
  assumes "datetime_new y m d = Inr D" "CMAP_file D = Inr cmap"
  shows "main fs y m d
    = Inr (status_code (\<not> isfile fs cmap) (\<not> isfile fs (anaeta_file D)) (\<not> OSTIA_scan fs D))"
  using assms by (simp add: main_def status_code_def Let_def)

lemma main_first_day: "main fs 1 1 1 = Inl OverflowError"
  by (simp add: main_def datetime_new_def valid_ymd_def days_in_month_def DAYS_IN_MONTH_def
      CMAP_file_def minus_one_day_def)

lemma main_invalid_date: "\<not> valid_ymd y m d \<Longrightarrow> main fs y m d = Inl ValueError"
  by (simp add: main_def datetime_new_def)

lemma status_code_decode:
  "sourceA_missing (status_code a b c) = a \<and> sourceB_missing (status_code a b c) = b
    \<and> sourceC_missing (status_code a b c) = c"
  by (cases a; cases b; cases c)
     (simp_all add: status_code_def sourceA_missing_def sourceB_missing_def sourceC_missing_def)

lemma status_code_inj:
  "status_code a b c = status_code a' b' c' \<longleftrightarrow> a = a' \<and> b = b' \<and> c = c'"
proof
  assume e: "status_code a b c = status_code a' b' c'"
  have "sourceA_missing (status_code a b c) = sourceA_missing (status_code a' b' c')"
    "sourceB_missing (status_code a b c) = sourceB_missing (status_code a' b' c')"
    "sourceC_missing (status_code a b c) = sourceC_missing (status_code a' b' c')"
    by (simp_all only: e)
  then show "a = a' \<and> b = b' \<and> c = c'"
    by (simp only: status_code_decode)
next
  assume "a = a' \<and> b = b' \<and> c = c'"
  then show "status_code a b c = status_code a' b' c'" by simp
qed

lemma status_code_zero: "status_code a b c = 0 \<longleftrightarrow> \<not> a \<and> \<not> b \<and> \<not> c"
  by (cases a; cases b; cases c) (simp_all add: status_code_def)

lemma status_code_range:
  "k \<in> {0, 1, 10, 11, 100, 101, 110, 111} \<longleftrightarrow> (\<exists>a b c. k = status_code a b c)"
proof
  assume "k \<in> {0, 1, 10, 11, 100, 101, 110, 111}"
  then have "k = status_code (sourceA_missing k) (sourceB_missing k) (sourceC_missing k)"
    by (auto simp add: status_code_def sourceA_missing_def sourceB_missing_def sourceC_missing_def)
  then show "\<exists>a b c. k = status_code a b c" by blast
next
  assume "\<exists>a b c. k = status_code a b c"
  then obtain a b c where "k = status_code a b c" by blast
  then show "k \<in> {0, 1, 10, 11, 100, 101, 110, 111}"
    by (cases a; cases b; cases c) (simp_all add: status_code_def)
qed

lemma str_in_self: "str_in pat pat"
proof -
  have "pat = [] @ pat @ []" by simp
  then show ?thesis unfolding str_in_iff by blast
qed

text \<open>A file system for any combination of missing sources.\<close>

lemma every_combination_occurs:
  assumes "CMAP_file D = Inr cmap"
  shows "\<exists>fs. (\<not> isfile fs cmap) = a \<and> (\<not> isfile fs (anaeta_file D)) = b \<and> (\<not> OSTIA_scan fs D) = c"
proof -
  from probe_paths_distinct [OF assms]
  have ne: "cmap \<noteq> anaeta_file D" "cmap \<noteq> OSTIA_file" "anaeta_file D \<noteq> OSTIA_file" by simp_all
  let ?fs = "(\<lambda>p. None)
    (cmap := if a then None else Some (File []),
     anaeta_file D := if b then None else Some (File []),
     OSTIA_file := if c then None else Some (File [OSTIA_string D]))"
  have "(\<not> isfile ?fs cmap) = a" using ne by (simp add: isfile_def)
  moreover have "(\<not> isfile ?fs (anaeta_file D)) = b" using ne by (simp add: isfile_def)
  moreover have "(\<not> OSTIA_scan ?fs D) = c" by (simp add: OSTIA_scan_iff str_in_self)
  ultimately show ?thesis by blast
qed

text \<open>
  C3. On every date on which the probe reaches its checks (every date of the calendar
  but 0001-01-01, whose day before does not exist), and for every file system, the
  status is 1 for a missing precipitation file plus 10 for a missing analysis file plus
  100 for a missing completion record; it is 0 exactly when all three are found; every
  combination of the three outcomes occurs; the three flags are read back from the
  status one by one, two different combinations never give the same status, and the
  statuses are exactly 0, 1, 10, 11, 100, 101, 110 and 111.
\<close>

theorem main_status_is_sum_of_missing_codes:
  assumes "valid_ymd y m d" and "\<not> (y = 1 \<and> m = 1 \<and> d = 1)"
  shows "\<exists>D cmap. datetime_new y m d = Inr D \<and> CMAP_file D = Inr cmap
    \<and> main fs y m d
        = Inr (status_code (\<not> isfile fs cmap) (\<not> isfile fs (anaeta_file D)) (\<not> OSTIA_scan fs D))
    \<and> (main fs y m d = Inr 0 \<longleftrightarrow> isfile fs cmap \<and> isfile fs (anaeta_file D) \<and> OSTIA_scan fs D)
    \<and> (\<forall>a b c. \<exists>fs'. main fs' y m d = Inr (status_code a b c)
          \<and> (\<not> isfile fs' cmap) = a \<and> (\<not> isfile fs' (anaeta_file D)) = b
          \<and> (\<not> OSTIA_scan fs' D) = c)
    \<and> (\<forall>a b c. sourceA_missing (status_code a b c) = a \<and> sourceB_missing (status_code a b c) = b
          \<and> sourceC_missing (status_code a b c) = c)
    \<and> (\<forall>a b c a' b' c'. (status_code a b c = status_code a' b' c') = (a = a' \<and> b = b' \<and> c = c'))
    \<and> (\<forall>k. (k \<in> {0, 1, 10, 11, 100, 101, 110, 111}) = (\<exists>a b c. k = status_code a b c))"
proof -
  from probe_reaches_checks [OF assms] obtain D cmap
    where D: "datetime_new y m d = Inr D" and c: "CMAP_file D = Inr cmap" by blast
  note st = main_status [OF D c]
  have z: "main fs y m d = Inr 0 \<longleftrightarrow> isfile fs cmap \<and> isfile fs (anaeta_file D) \<and> OSTIA_scan fs D"
    by (simp add: st status_code_zero)
  have e: "\<forall>a b c. \<exists>fs'. main fs' y m d = Inr (status_code a b c)
          \<and> (\<not> isfile fs' cmap) = a \<and> (\<not> isfile fs' (anaeta_file D)) = b
          \<and> (\<not> OSTIA_scan fs' D) = c"
  proof (intro allI)
    fix a b c
    from every_combination_occurs [OF c, of a b c] obtain fs'
      where f: "(\<not> isfile fs' cmap) = a" "(\<not> isfile fs' (anaeta_file D)) = b"
        "(\<not> OSTIA_scan fs' D) = c" by blast
    have "main fs' y m d = Inr (status_code a b c)"
      unfolding main_status [OF D c] using f by simp
    with f show "\<exists>fs'. main fs' y m d = Inr (status_code a b c)
          \<and> (\<not> isfile fs' cmap) = a \<and> (\<not> isfile fs' (anaeta_file D)) = b
          \<and> (\<not> OSTIA_scan fs' D) = c" by blast
  qed
  from D c st z e status_code_decode status_code_inj status_code_range show ?thesis
    by blast
qed

theorem main_status_is_sum_of_missing_codes_witness:
  "valid_ymd 2024 3 1
    \<and> main (Map.empty(OSTIA_file \<mapsto>
          File [''QUART-OSTIA-REYNOLDS-01, 00:00, 2024-03-01, COMPLETE''])) 2024 3 1 = Inr 11
    \<and> sourceA_missing 11 \<and> sourceB_missing 11 \<and> \<not> sourceC_missing 11
    \<and> main Map.empty 2024 3 1 = Inr 111"
proof -
  let ?fs = "Map.empty(OSTIA_file \<mapsto>
    File [''QUART-OSTIA-REYNOLDS-01, 00:00, 2024-03-01, COMPLETE''])"
  let ?D = "\<lparr>dt_year = 2024, dt_month = 3, dt_day = 1, dt_hour = 0, dt_minute = 0\<rparr>"
  have v: "valid_ymd 2024 3 1"
    by (simp add: valid_ymd_def days_in_month_def DAYS_IN_MONTH_def)
  have nf: "\<not> (2024 = (1::int) \<and> 3 = (1::int) \<and> 1 = (1::int))" by simp
  have D: "datetime_new 2024 3 1 = Inr ?D" using v by (simp add: datetime_new_def)
  have key: "OSTIA_string ?D = ''QUART-OSTIA-REYNOLDS-01, 00:00, 2024-03-01, COMPLETE''"
    by (simp add: OSTIA_string_midnight strftime_Y_def str_of_int_def fmt4_def fmt2_def
        digit_char_def)
  from main_status_is_sum_of_missing_codes [OF v nf, of ?fs] obtain D cmap
    where 1: "datetime_new 2024 3 1 = Inr D" and 2: "CMAP_file D = Inr cmap"
      and 3: "main ?fs 2024 3 1
        = Inr (status_code (\<not> isfile ?fs cmap) (\<not> isfile ?fs (anaeta_file D)) (\<not> OSTIA_scan ?fs D))"
      and 4: "\<forall>a b c. sourceA_missing (status_code a b c) = a
        \<and> sourceB_missing (status_code a b c) = b \<and> sourceC_missing (status_code a b c) = c"
    by (elim exE conjE) (rule that, assumption+)
  from 1 D have DD: "D = ?D" by simp
  from probe_paths_distinct [OF 2]
  have ne: "cmap \<noteq> OSTIA_file" "anaeta_file D \<noteq> OSTIA_file" by simp_all
  have a: "\<not> isfile ?fs cmap" "\<not> isfile ?fs (anaeta_file D)"
    using ne by (simp_all add: isfile_def)
  have c: "OSTIA_scan ?fs D"
    unfolding OSTIA_scan_iff DD key by (simp add: str_in_self)
  have s11: "status_code True True False = 11" "status_code True True True = 111"
    by (simp_all add: status_code_def)
  from 3 a c have m: "main ?fs 2024 3 1 = Inr 11" by (simp add: s11)
  from 4 have "sourceA_missing (status_code True True False)"
    "sourceB_missing (status_code True True False)"
    "\<not> sourceC_missing (status_code True True False)" by simp_all
  then have f: "sourceA_missing 11" "sourceB_missing 11" "\<not> sourceC_missing 11"
    by (simp_all add: s11)
  have "\<not> OSTIA_scan Map.empty D" by (simp add: OSTIA_scan_iff)
  then have e: "main Map.empty 2024 3 1 = Inr 111"
    by (simp add: main_status [OF 1 2] isfile_def s11)
  from v m f e show ?thesis by simp
qed

text \<open>
  C10 as stated: on every input date the completion record is reported ready exactly when
  the status log is a file with a line that contains
  \<open>QUART-OSTIA-REYNOLDS-01, 00:00, YYYY-MM-DD, COMPLETE\<close> for that date. For the year 999
  the key the probe looks for has the year without its leading zero: a log with the line
  for \<open>0999-03-01\<close> leaves the code 100 in the status, the line for \<open>999-03-01\<close> clears
  it. On 0001-01-01 the probe raises \<^verbatim>\<open>OverflowError\<close> before it reads the log.
\<close>

theorem OSTIA_key_is_iso_date_on_every_date_counterexample:
  "main (Map.empty(OSTIA_file \<mapsto>
       File [''QUART-OSTIA-REYNOLDS-01, 00:00, 0999-03-01, COMPLETE''])) 999 3 1 = Inr 111
    \<and> sourceC_missing 111
    \<and> main (Map.empty(OSTIA_file \<mapsto>
         File [''QUART-OSTIA-REYNOLDS-01, 00:00, 999-03-01, COMPLETE''])) 999 3 1 = Inr 11
    \<and> \<not> sourceC_missing 11
    \<and> main (Map.empty(OSTIA_file \<mapsto>
         File [''QUART-OSTIA-REYNOLDS-01, 00:00, 0001-01-01, COMPLETE''])) 1 1 1
       = Inl OverflowError"
  by code_simp

text \<open>
  C10 as the code has it. On every date after 0001-01-01 the completion record is
  reported ready exactly when the status log is a file and one of its lines contains
  the key \<open>QUART-OSTIA-REYNOLDS-01, 00:00, Y-MM-DD, COMPLETE\<close>, where \<open>Y\<close> is the year
  as \<^verbatim>\<open>%Y\<close> prints it: from the year 1000 on the key is the one with the ISO date
  \<open>YYYY-MM-DD\<close>, before that the year is shorter than four digits. The time field is
  \<open>00:00\<close> for every date. A status log that is missing gives the same status, with the
  code 100 in it, as a status log without such a line. On 0001-01-01 the probe raises
  \<^verbatim>\<open>OverflowError\<close>, whatever the file system.
\<close>

theorem OSTIA_ready_iff_line_with_strftime_key:
  assumes "valid_ymd y m d" and "\<not> (y = 1 \<and> m = 1 \<and> d = 1)"
  shows "\<exists>rc D. main fs y m d = Inr rc \<and> datetime_new y m d = Inr D
    \<and> OSTIA_string D
        = ''QUART-OSTIA-REYNOLDS-01, 00:00, '' @ strftime_Y y @ ''-'' @ fmt2 m @ ''-'' @ fmt2 d
            @ '', COMPLETE''
    \<and> (1000 \<le> y \<longrightarrow>
          OSTIA_string D = ''QUART-OSTIA-REYNOLDS-01, 00:00, '' @ iso_date y m d @ '', COMPLETE'')
    \<and> (y < 1000 \<longrightarrow> length (strftime_Y y) < 4)
    \<and> (\<not> sourceC_missing rc \<longleftrightarrow>
         (\<exists>ls. fs OSTIA_file = Some (File ls)
            \<and> (\<exists>l\<in>set ls. \<exists>pre post. l = pre @ OSTIA_string D @ post)))
    \<and> (\<forall>ls. \<not> isfile fs OSTIA_file \<and> (\<forall>l\<in>set ls. \<not> str_in (OSTIA_string D) l)
          \<longrightarrow> sourceC_missing rc \<and> main (fs(OSTIA_file \<mapsto> File ls)) y m d = Inr rc)
    \<and> main fs 1 1 1 = Inl OverflowError"
proof -
  from probe_reaches_checks [OF assms] obtain D cmap
    where D: "datetime_new y m d = Inr D" and c: "CMAP_file D = Inr cmap"
      and f: "dt_year D = y" "dt_month D = m" "dt_day D = d" "dt_hour D = 0" "dt_minute D = 0"
    by blast
  let ?rc = "status_code (\<not> isfile fs cmap) (\<not> isfile fs (anaeta_file D)) (\<not> OSTIA_scan fs D)"
  have st: "main fs y m d = Inr ?rc" by (rule main_status [OF D c])
  have key: "OSTIA_string D
      = ''QUART-OSTIA-REYNOLDS-01, 00:00, '' @ strftime_Y y @ ''-'' @ fmt2 m @ ''-'' @ fmt2 d
          @ '', COMPLETE''"
    using OSTIA_string_midnight [OF f(4,5)] f by simp
  have iso: "1000 \<le> y \<longrightarrow>
      OSTIA_string D = ''QUART-OSTIA-REYNOLDS-01, 00:00, '' @ iso_date y m d @ '', COMPLETE''"
    by (simp add: key iso_date_def strftime_Y_four_digits)
  have short: "y < 1000 \<longrightarrow> length (strftime_Y y) < 4"
    by (simp add: strftime_Y_short)
  have rd: "\<not> sourceC_missing ?rc \<longleftrightarrow>
         (\<exists>ls. fs OSTIA_file = Some (File ls)
            \<and> (\<exists>l\<in>set ls. \<exists>pre post. l = pre @ OSTIA_string D @ post))"
    by (simp only: status_code_decode OSTIA_scan_iff str_in_iff not_not)
  from probe_paths_distinct [OF c]
  have ne: "cmap \<noteq> OSTIA_file" "anaeta_file D \<noteq> OSTIA_file" by simp_all
  have ms: "\<forall>ls. \<not> isfile fs OSTIA_file \<and> (\<forall>l\<in>set ls. \<not> str_in (OSTIA_string D) l)
          \<longrightarrow> sourceC_missing ?rc \<and> main (fs(OSTIA_file \<mapsto> File ls)) y m d = Inr ?rc"
  proof (intro allI impI)
    fix ls
    assume h: "\<not> isfile fs OSTIA_file \<and> (\<forall>l\<in>set ls. \<not> str_in (OSTIA_string D) l)"
    then have n1: "\<not> OSTIA_scan fs D" by (simp add: OSTIA_scan_def)
    from h have n2: "\<not> OSTIA_scan (fs(OSTIA_file \<mapsto> File ls)) D"
      by (simp add: OSTIA_scan_iff)
    have i: "isfile (fs(OSTIA_file \<mapsto> File ls)) cmap = isfile fs cmap"
      "isfile (fs(OSTIA_file \<mapsto> File ls)) (anaeta_file D) = isfile fs (anaeta_file D)"
      using ne by (simp_all add: isfile_def)
    have "main (fs(OSTIA_file \<mapsto> File ls)) y m d = Inr ?rc"
      unfolding main_status [OF D c] i using n1 n2 by simp
    moreover have "sourceC_missing ?rc" using n1 by (simp add: status_code_decode)
    ultimately show "sourceC_missing ?rc \<and> main (fs(OSTIA_file \<mapsto> File ls)) y m d = Inr ?rc"
      by simp
  qed
  from st D key iso short rd ms main_first_day [of fs] show ?thesis by blast
qed

theorem OSTIA_ready_iff_line_with_strftime_key_witness:
  "valid_ymd 2024 3 1
    \<and> OSTIA_string \<lparr>dt_year = 2024, dt_month = 3, dt_day = 1, dt_hour = 0, dt_minute = 0\<rparr>
        = ''QUART-OSTIA-REYNOLDS-01, 00:00, 2024-03-01, COMPLETE''
    \<and> main Map.empty 2024 3 1 = Inr 111 \<and> sourceC_missing 111
    \<and> main (Map.empty(OSTIA_file \<mapsto>
          File [''QUART-OSTIA-REYNOLDS-01, 12:00, 2024-03-01, COMPLETE''])) 2024 3 1 = Inr 111"
proof -
  let ?D = "\<lparr>dt_year = 2024, dt_month = 3, dt_day = 1, dt_hour = 0, dt_minute = 0\<rparr>"
  let ?ls = "[''QUART-OSTIA-REYNOLDS-01, 12:00, 2024-03-01, COMPLETE'']"
  have v: "valid_ymd 2024 3 1"
    by (simp add: valid_ymd_def days_in_month_def DAYS_IN_MONTH_def)
  have nf: "\<not> (2024 = (1::int) \<and> 3 = (1::int) \<and> 1 = (1::int))" by simp
  have D: "datetime_new 2024 3 1 = Inr ?D" using v by (simp add: datetime_new_def)
  have iso: "iso_date 2024 3 1 = ''2024-03-01''"
    by (simp add: iso_date_def fmt4_def fmt2_def digit_char_def)
  have m0: "main Map.empty 2024 3 1 = Inr 111"
    by (simp add: main_def D CMAP_file_def minus_one_day_def isfile_def OSTIA_scan_def)
  from OSTIA_ready_iff_line_with_strftime_key [OF v nf, of Map.empty] m0 D
  have key: "OSTIA_string ?D = ''QUART-OSTIA-REYNOLDS-01, 00:00, 2024-03-01, COMPLETE''"
    and rd: "\<not> sourceC_missing 111 \<longleftrightarrow>
         (\<exists>ls. Map.empty OSTIA_file = Some (File ls)
            \<and> (\<exists>l\<in>set ls. \<exists>pre post. l = pre @ OSTIA_string ?D @ post))"
    and ms: "\<forall>ls. \<not> isfile Map.empty OSTIA_file \<and> (\<forall>l\<in>set ls. \<not> str_in (OSTIA_string ?D) l)
          \<longrightarrow> sourceC_missing 111 \<and> main (Map.empty(OSTIA_file \<mapsto> File ls)) 2024 3 1 = Inr 111"
    by (auto simp add: iso)
  from rd have c: "sourceC_missing 111" by simp
  have "\<not> isfile Map.empty OSTIA_file \<and> (\<forall>l\<in>set ?ls. \<not> str_in (OSTIA_string ?D) l)"
    unfolding key by (simp add: isfile_def)
  with ms have "main (Map.empty(OSTIA_file \<mapsto> File ?ls)) 2024 3 1 = Inr 111" by blast
  with v key m0 c show ?thesis by simp
qed

section \<open>About the poll loop\<close>

lemma poll_loop_timeout:
  "\<not> now < max_wait_time r \<Longrightarrow>
     poll_loop r probe i now = Some \<lparr>wr_ready = False, wr_attempts = i, wr_elapsed = now\<rparr>"
  by (subst poll_loop.simps) simp

lemma poll_loop_ready:
  assumes "now < max_wait_time r" "probe_ready (probe i)"
  shows "poll_loop r probe i now
    = Some \<lparr>wr_ready = True, wr_attempts = Suc i, wr_elapsed = now + probe_time (probe i)\<rparr>"
  using assms
  by (subst poll_loop.simps)
     (auto simp add: probe_ready_def probe_time_def split: prod.splits run_result.splits)

lemma poll_loop_retry:
  assumes "now < max_wait_time r" "\<not> probe_ready (probe i)"
  shows "poll_loop r probe i now = poll_loop r probe (Suc i) (now + attempt_cost r (probe i))"
  using assms
  by (subst poll_loop.simps)
     (auto simp add: probe_ready_def probe_time_def attempt_cost_def add.assoc
        split: prod.splits run_result.splits)

lemma probe_time_le: "probe_time c \<le> 300"
  by (cases c) (simp_all add: probe_time_def)

lemma start_of_attempt_mono:
  "j \<le> k \<Longrightarrow> start_of_attempt r probe j \<le> start_of_attempt r probe k"
  by (induction k) (auto simp add: le_Suc_eq)

lemma start_of_attempt_ge: "k * check_interval r \<le> start_of_attempt r probe k"
  by (induction k) (simp_all add: attempt_cost_def)

lemma loop_ready_from:
  assumes "probe_ready (probe k)" "start_of_attempt r probe k < max_wait_time r"
    and "\<forall>j<k. \<not> probe_ready (probe j)"
  shows "i \<le> k \<Longrightarrow> poll_loop r probe i (start_of_attempt r probe i)
    = Some \<lparr>wr_ready = True, wr_attempts = Suc k,
        wr_elapsed = start_of_attempt r probe k + probe_time (probe k)\<rparr>"
proof (induction "k - i" arbitrary: i)
  case 0
  then have "i = k" by simp
  with assms show ?case by (simp add: poll_loop_ready)
next
  case (Suc n)
  then have lt: "i < k" by simp
  with assms(3) have nr: "\<not> probe_ready (probe i)" by simp
  from start_of_attempt_mono [of i k r probe] lt assms(2)
  have "start_of_attempt r probe i < max_wait_time r" by simp
  from poll_loop_retry [where probe = probe and i = i, OF this nr]
  have "poll_loop r probe i (start_of_attempt r probe i)
      = poll_loop r probe (Suc i) (start_of_attempt r probe (Suc i))" by simp
  also have "\<dots> = Some \<lparr>wr_ready = True, wr_attempts = Suc k,
        wr_elapsed = start_of_attempt r probe k + probe_time (probe k)\<rparr>"
    using Suc.hyps(2) lt by (intro Suc.hyps(1)) simp_all
  finally show ?case .
qed

lemma loop_timeout_from:
  assumes "max_wait_time r \<le> start_of_attempt r probe n"
    and "\<forall>j<n. \<not> probe_ready (probe j) \<and> start_of_attempt r probe j < max_wait_time r"
  shows "i \<le> n \<Longrightarrow> poll_loop r probe i (start_of_attempt r probe i)
    = Some \<lparr>wr_ready = False, wr_attempts = n, wr_elapsed = start_of_attempt r probe n\<rparr>"
proof (induction "n - i" arbitrary: i)
  case 0
  then have "i = n" by simp
  with assms(1) show ?case by (simp add: poll_loop_timeout)
next
  case (Suc m)
  then have lt: "i < n" by simp
  with assms(2) have nr: "\<not> probe_ready (probe i)"
    and st: "start_of_attempt r probe i < max_wait_time r" by simp_all
  from poll_loop_retry [where probe = probe and i = i, OF st nr]
  have "poll_loop r probe i (start_of_attempt r probe i)
      = poll_loop r probe (Suc i) (start_of_attempt r probe (Suc i))" by simp
  also have "\<dots> = Some \<lparr>wr_ready = False, wr_attempts = n,
        wr_elapsed = start_of_attempt r probe n\<rparr>"
    using Suc.hyps(2) lt by (intro Suc.hyps(1)) simp_all
  finally show ?case .
qed

text \<open>
  With a sleep of at least one second the loop ends, and its result is one of two: the
  first ready attempt that starts inside the budget, or the first loop test at or after
  the budget with no ready attempt before it.
\<close>

lemma poll_loop_result:
  assumes "0 < check_interval r"
  shows "(\<exists>k. probe_ready (probe k) \<and> (\<forall>j<k. \<not> probe_ready (probe j))
            \<and> start_of_attempt r probe k < max_wait_time r
            \<and> poll_loop r probe 0 0
                = Some \<lparr>wr_ready = True, wr_attempts = Suc k,
                    wr_elapsed = start_of_attempt r probe k + probe_time (probe k)\<rparr>)
       \<or> (\<exists>n. max_wait_time r \<le> start_of_attempt r probe n
            \<and> (\<forall>j<n. \<not> probe_ready (probe j) \<and> start_of_attempt r probe j < max_wait_time r)
            \<and> poll_loop r probe 0 0
                = Some \<lparr>wr_ready = False, wr_attempts = n,
                    wr_elapsed = start_of_attempt r probe n\<rparr>)"
proof -
  define n0 where "n0 = (LEAST n. max_wait_time r \<le> start_of_attempt r probe n)"
  have "max_wait_time r \<le> max_wait_time r * check_interval r"
    using assms by (cases "check_interval r") simp_all
  then have ex: "max_wait_time r \<le> start_of_attempt r probe (max_wait_time r)"
    using start_of_attempt_ge [of "max_wait_time r" r probe] by (rule order_trans)
  have n0: "max_wait_time r \<le> start_of_attempt r probe n0"
    unfolding n0_def by (rule LeastI [of _ "max_wait_time r"]) (rule ex)
  have below: "start_of_attempt r probe j < max_wait_time r" if "j < n0" for j
    using not_less_Least [of j "\<lambda>n. max_wait_time r \<le> start_of_attempt r probe n"] that
    by (simp add: n0_def)
  show ?thesis
  proof (cases "\<exists>k<n0. probe_ready (probe k)")
    case True
    define k0 where "k0 = (LEAST k. probe_ready (probe k))"
    from True obtain k where k: "k < n0" "probe_ready (probe k)" by blast
    have r0: "probe_ready (probe k0)" unfolding k0_def by (rule LeastI [of _ k]) (rule k(2))
    have "k0 \<le> k" unfolding k0_def by (rule Least_le) (rule k(2))
    with k(1) have "k0 < n0" by simp
    then have s0: "start_of_attempt r probe k0 < max_wait_time r" by (rule below)
    have nb: "\<forall>j<k0. \<not> probe_ready (probe j)"
    proof (intro allI impI)
      fix j
      assume "j < k0"
      then show "\<not> probe_ready (probe j)" unfolding k0_def by (rule not_less_Least)
    qed
    have "poll_loop r probe 0 0
        = Some \<lparr>wr_ready = True, wr_attempts = Suc k0,
            wr_elapsed = start_of_attempt r probe k0 + probe_time (probe k0)\<rparr>"
      using loop_ready_from [OF r0 s0 nb, of 0] by simp
    with r0 nb s0 show ?thesis by (intro disjI1 exI [of _ k0] conjI)
  next
    case False
    with below
    have nr: "\<forall>j<n0. \<not> probe_ready (probe j) \<and> start_of_attempt r probe j < max_wait_time r"
      by blast
    have "poll_loop r probe 0 0
        = Some \<lparr>wr_ready = False, wr_attempts = n0, wr_elapsed = start_of_attempt r probe n0\<rparr>"
      using loop_timeout_from [OF n0 nr, of 0] by simp
    with n0 nr show ?thesis by (intro disjI2 exI [of _ n0] conjI)
  qed
qed

lemma probe_ready_iff:
  "probe_ready c \<longleftrightarrow> (\<exists>t out err. c = Runs t 0 out err \<and> t \<le> 300)"
  by (cases c) (auto simp add: probe_ready_def)

lemma wait_for_files_parsed:
  assumes "strptime forecast_date = Inr dt" "poll_loop r (env_probe e (check_cmd r dt)) 0 0 = Some res"
  shows "wait_for_files r e forecast_date w
    = Some (Inr res,
        w\<lparr>w_probe_calls := w_probe_calls w @ replicate (wr_attempts res) (check_cmd r dt)\<rparr>)"
  using assms by (simp add: wait_for_files_def)

lemma wait_for_files_result:
  assumes "0 < check_interval r" and "strptime forecast_date = Inr dt"
    and "probe = env_probe e (check_cmd r dt)"
  shows "\<exists>res. wait_for_files r e forecast_date w
        = Some (Inr res,
            w\<lparr>w_probe_calls := w_probe_calls w @ replicate (wr_attempts res) (check_cmd r dt)\<rparr>)
    \<and> (wr_ready res \<longleftrightarrow>
         (\<exists>k. probe_ready (probe k) \<and> (\<forall>j<k. \<not> probe_ready (probe j))
            \<and> start_of_attempt r probe k < max_wait_time r))
    \<and> (wr_ready res \<longrightarrow>
         (\<exists>k. wr_attempts res = Suc k \<and> probe_ready (probe k) \<and> (\<forall>j<k. \<not> probe_ready (probe j))
            \<and> start_of_attempt r probe k < max_wait_time r
            \<and> wr_elapsed res = start_of_attempt r probe k + probe_time (probe k)))
    \<and> (\<not> wr_ready res \<longrightarrow>
         (\<forall>j<wr_attempts res. \<not> probe_ready (probe j) \<and> start_of_attempt r probe j < max_wait_time r)
          \<and> wr_elapsed res = start_of_attempt r probe (wr_attempts res)
          \<and> max_wait_time r \<le> wr_elapsed res)
    \<and> (\<forall>c. probe_ready c = (\<exists>t out err. c = Runs t 0 out err \<and> t \<le> 300))
    \<and> (\<forall>k. start_of_attempt r probe (Suc k)
          = start_of_attempt r probe k + probe_time (probe k) + check_interval r)"
proof -
  have st: "\<forall>k. start_of_attempt r probe (Suc k)
          = start_of_attempt r probe k + probe_time (probe k) + check_interval r"
    by (simp add: attempt_cost_def)
  have pr: "\<forall>c. probe_ready c = (\<exists>t out err. c = Runs t 0 out err \<and> t \<le> 300)"
    using probe_ready_iff by blast
  from poll_loop_result [OF assms(1), of probe] show ?thesis
  proof (elim disjE exE conjE)
    fix k
    assume k: "probe_ready (probe k)" "\<forall>j<k. \<not> probe_ready (probe j)"
      "start_of_attempt r probe k < max_wait_time r"
      and p: "poll_loop r probe 0 0
        = Some \<lparr>wr_ready = True, wr_attempts = Suc k,
            wr_elapsed = start_of_attempt r probe k + probe_time (probe k)\<rparr>"
    let ?res = "\<lparr>wr_ready = True, wr_attempts = Suc k,
            wr_elapsed = start_of_attempt r probe k + probe_time (probe k)\<rparr>"
    have w: "wait_for_files r e forecast_date w
        = Some (Inr ?res,
            w\<lparr>w_probe_calls := w_probe_calls w @ replicate (wr_attempts ?res) (check_cmd r dt)\<rparr>)"
      using p assms(3) by (intro wait_for_files_parsed [OF assms(2)]) simp
    have a: "wr_ready ?res \<longleftrightarrow>
         (\<exists>k. probe_ready (probe k) \<and> (\<forall>j<k. \<not> probe_ready (probe j))
            \<and> start_of_attempt r probe k < max_wait_time r)"
      using k by auto
    have b: "wr_ready ?res \<longrightarrow>
         (\<exists>k'. wr_attempts ?res = Suc k' \<and> probe_ready (probe k')
            \<and> (\<forall>j<k'. \<not> probe_ready (probe j))
            \<and> start_of_attempt r probe k' < max_wait_time r
            \<and> wr_elapsed ?res = start_of_attempt r probe k' + probe_time (probe k'))"
      using k by auto
    have c: "\<not> wr_ready ?res \<longrightarrow>
         (\<forall>j<wr_attempts ?res. \<not> probe_ready (probe j) \<and> start_of_attempt r probe j < max_wait_time r)
          \<and> wr_elapsed ?res = start_of_attempt r probe (wr_attempts ?res)
          \<and> max_wait_time r \<le> wr_elapsed ?res"
      by simp
    from w a b c st pr show ?thesis
      by (intro exI [of _ ?res] conjI) assumption+
  next
    fix n
    assume n: "max_wait_time r \<le> start_of_attempt r probe n"
      "\<forall>j<n. \<not> probe_ready (probe j) \<and> start_of_attempt r probe j < max_wait_time r"
      and p: "poll_loop r probe 0 0
        = Some \<lparr>wr_ready = False, wr_attempts = n, wr_elapsed = start_of_attempt r probe n\<rparr>"
    let ?res = "\<lparr>wr_ready = False, wr_attempts = n, wr_elapsed = start_of_attempt r probe n\<rparr>"
    have w: "wait_for_files r e forecast_date w
        = Some (Inr ?res,
            w\<lparr>w_probe_calls := w_probe_calls w @ replicate (wr_attempts ?res) (check_cmd r dt)\<rparr>)"
      using p assms(3) by (intro wait_for_files_parsed [OF assms(2)]) simp
    have none: "\<not> (probe_ready (probe k) \<and> start_of_attempt r probe k < max_wait_time r)" for k
    proof (cases "k < n")
      case True
      with n(2) show ?thesis by simp
    next
      case False
      then have "start_of_attempt r probe n \<le> start_of_attempt r probe k"
        by (intro start_of_attempt_mono) simp
      with n(1) show ?thesis by simp
    qed
    have a: "wr_ready ?res \<longleftrightarrow>
         (\<exists>k. probe_ready (probe k) \<and> (\<forall>j<k. \<not> probe_ready (probe j))
            \<and> start_of_attempt r probe k < max_wait_time r)"
      using none by auto
    have b: "wr_ready ?res \<longrightarrow>
         (\<exists>k'. wr_attempts ?res = Suc k' \<and> probe_ready (probe k')
            \<and> (\<forall>j<k'. \<not> probe_ready (probe j))
            \<and> start_of_attempt r probe k' < max_wait_time r
            \<and> wr_elapsed ?res = start_of_attempt r probe k' + probe_time (probe k'))"
      by simp
    have c: "\<not> wr_ready ?res \<longrightarrow>
         (\<forall>j<wr_attempts ?res. \<not> probe_ready (probe j) \<and> start_of_attempt r probe j < max_wait_time r)
          \<and> wr_elapsed ?res = start_of_attempt r probe (wr_attempts ?res)
          \<and> max_wait_time r \<le> wr_elapsed ?res"
      using n by simp
    from w a b c st pr show ?thesis
      by (intro exI [of _ ?res] conjI) assumption+
  qed
qed

text \<open>
  C4. For every behaviour of the probe, \<^verbatim>\<open>wait_for_files\<close> returns, with no exception:
  true exactly when some attempt is ready, no attempt before it is, and it starts within
  \<^verbatim>\<open>max_wait_time\<close> of the one start time, and then at that attempt; an attempt that
  is not ready, whether by a nonzero status, a timeout of the probe or a failure to start
  it, is followed by the sleep and the next attempt; false at the first loop test at or
  after \<^verbatim>\<open>max_wait_time\<close>, every attempt before it having failed.
\<close>

theorem wait_for_files_returns_at_first_ready_attempt:
  assumes "0 < check_interval r" and "strptime forecast_date = Inr dt"
    and "probe = env_probe e (check_cmd r dt)"
  shows "\<exists>res. wait_for_files r e forecast_date w
        = Some (Inr res,
            w\<lparr>w_probe_calls := w_probe_calls w @ replicate (wr_attempts res) (check_cmd r dt)\<rparr>)
    \<and> (wr_ready res \<longleftrightarrow>
         (\<exists>k. probe_ready (probe k) \<and> (\<forall>j<k. \<not> probe_ready (probe j))
            \<and> start_of_attempt r probe k < max_wait_time r))
    \<and> (wr_ready res \<longrightarrow>
         (\<exists>k. wr_attempts res = Suc k \<and> probe_ready (probe k) \<and> (\<forall>j<k. \<not> probe_ready (probe j))
            \<and> start_of_attempt r probe k < max_wait_time r
            \<and> wr_elapsed res = start_of_attempt r probe k + probe_time (probe k)))
    \<and> (\<not> wr_ready res \<longrightarrow>
         (\<forall>j<wr_attempts res. \<not> probe_ready (probe j) \<and> start_of_attempt r probe j < max_wait_time r)
          \<and> wr_elapsed res = start_of_attempt r probe (wr_attempts res)
          \<and> max_wait_time r \<le> wr_elapsed res)
    \<and> (\<forall>c. probe_ready c = (\<exists>t out err. c = Runs t 0 out err \<and> t \<le> 300))
    \<and> (\<forall>k. start_of_attempt r probe (Suc k)
          = start_of_attempt r probe k + probe_time (probe k) + check_interval r)"
  using assms by (rule wait_for_files_result)

theorem wait_for_files_returns_at_first_ready_attempt_witness:
  "0 < check_interval example_runner
    \<and> strptime ''2024-01-01''
        = Inr \<lparr>dt_year = 2024, dt_month = 1, dt_day = 1, dt_hour = 0, dt_minute = 0\<rparr>
    \<and> \<not> probe_ready (flaky_probe [] 0) \<and> \<not> probe_ready (flaky_probe [] 1)
    \<and> \<not> probe_ready (flaky_probe [] 2) \<and> probe_ready (flaky_probe [] 3)
    \<and> map_option fst (wait_for_files example_runner
          \<lparr>env_probe = flaky_probe, env_sbatch = accepting_sbatch\<rparr> ''2024-01-01'' example_world)
        = Some (Inr \<lparr>wr_ready = True, wr_attempts = 4, wr_elapsed = 3010\<rparr>)"
proof -
  let ?D = "\<lparr>dt_year = 2024, dt_month = 1, dt_day = 1, dt_hour = 0, dt_minute = 0\<rparr>"
  let ?e = "\<lparr>env_probe = flaky_probe, env_sbatch = accepting_sbatch\<rparr>"
  let ?p = "env_probe ?e (check_cmd example_runner ?D)"
  have i: "0 < check_interval example_runner"
    by (simp add: example_runner_def S2SForecastRunner_init_def)
  have v: "valid_ymd 2024 1 1" by (simp add: valid_ymd_def days_in_month_def DAYS_IN_MONTH_def)
  have "iso_date 2024 1 1 = ''2024-01-01''"
    by (simp add: iso_date_def fmt4_def fmt2_def digit_char_def)
  with strptime_iso_date [OF v] have s: "strptime ''2024-01-01'' = Inr ?D" by simp
  have pr: "\<not> probe_ready (flaky_probe c 0)" "\<not> probe_ready (flaky_probe c 1)"
    "\<not> probe_ready (flaky_probe c 2)" "probe_ready (flaky_probe c 3)" for c
    by (simp_all add: probe_ready_def flaky_probe_def)
  have pt: "probe_time (flaky_probe c 0) = 0" "probe_time (flaky_probe c 1) = 300"
    "probe_time (flaky_probe c 2) = 5" "probe_time (flaky_probe c 3) = 5" for c
    by (simp_all add: probe_time_def flaky_probe_def)
  have st: "start_of_attempt example_runner ?p 3 = 3005"
    by code_simp
  from wait_for_files_returns_at_first_ready_attempt [OF i s refl, of ?e example_world]
  obtain res where w: "wait_for_files example_runner ?e ''2024-01-01'' example_world
        = Some (Inr res, example_world\<lparr>w_probe_calls := w_probe_calls example_world
            @ replicate (wr_attempts res) (check_cmd example_runner ?D)\<rparr>)"
    and a: "wr_ready res \<longleftrightarrow>
         (\<exists>k. probe_ready (?p k) \<and> (\<forall>j<k. \<not> probe_ready (?p j))
            \<and> start_of_attempt example_runner ?p k < max_wait_time example_runner)"
    and b: "wr_ready res \<longrightarrow>
         (\<exists>k. wr_attempts res = Suc k \<and> probe_ready (?p k) \<and> (\<forall>j<k. \<not> probe_ready (?p j))
            \<and> start_of_attempt example_runner ?p k < max_wait_time example_runner
            \<and> wr_elapsed res = start_of_attempt example_runner ?p k + probe_time (?p k))"
    by (elim exE conjE) (rule that, assumption+)
  have nb: "\<forall>j<3. \<not> probe_ready (?p j)"
  proof (intro allI impI)
    fix j :: nat
    assume "j < 3"
    then have "j = 0 \<or> j = 1 \<or> j = 2" by arith
    then show "\<not> probe_ready (?p j)"
      using pr(1-3) by (elim disjE) simp_all
  qed
  have "probe_ready (?p 3) \<and> (\<forall>j<3. \<not> probe_ready (?p j))
      \<and> start_of_attempt example_runner ?p 3 < max_wait_time example_runner"
    using pr nb st by (simp add: example_runner_def S2SForecastRunner_init_def)
  with a have rd: "wr_ready res" by blast
  with b obtain k where k: "wr_attempts res = Suc k" "probe_ready (?p k)"
    "\<forall>j<k. \<not> probe_ready (?p j)"
    "wr_elapsed res = start_of_attempt example_runner ?p k + probe_time (?p k)" by blast
  have "\<not> 3 < k" using k(3) pr(4) by auto
  moreover have "\<not> k < 3" using k(2) nb by auto
  ultimately have k3: "k = 3" by simp
  from k k3 st pt have "wr_attempts res = 4" "wr_elapsed res = 3010" by simp_all
  with rd have "res = \<lparr>wr_ready = True, wr_attempts = 4, wr_elapsed = 3010\<rparr>" by simp
  with w i s pr show ?thesis by simp
qed

text \<open>
  C5 as stated: the loop ends within \<^verbatim>\<open>max_wait_time + check_interval\<close>. With a probe
  that runs 299 seconds and is never ready, the seventh attempt starts at 7194 seconds,
  inside the budget of 7200, and the loop ends at 8393 seconds, after 8100.
\<close>

theorem wait_for_files_within_max_wait_plus_interval_counterexample:
  "map_option fst (wait_for_files example_runner
      \<lparr>env_probe = slow_probe, env_sbatch = accepting_sbatch\<rparr> ''2024-01-01'' example_world)
    = Some (Inr \<lparr>wr_ready = False, wr_attempts = 7, wr_elapsed = 8393\<rparr>)
   \<and> max_wait_time example_runner + check_interval example_runner = 8100
   \<and> \<not> (8393::nat) \<le> 8100"
  by code_simp

text \<open>
  C5 as the code has it: the loop ends, and before
  \<^verbatim>\<open>max_wait_time\<close> plus the timeout of one probe call (300 seconds) plus
  \<^verbatim>\<open>check_interval\<close>; when it returns true, before \<^verbatim>\<open>max_wait_time\<close> plus the
  timeout; and before \<^verbatim>\<open>max_wait_time + check_interval\<close> when the probe calls take no
  time.
\<close>

theorem wait_for_files_ends_within_max_wait_plus_timeout_plus_interval:
  assumes "0 < check_interval r" and "strptime forecast_date = Inr dt"
    and "probe = env_probe e (check_cmd r dt)"
  shows "\<exists>res w'. wait_for_files r e forecast_date w = Some (Inr res, w')
    \<and> wr_elapsed res < max_wait_time r + 300 + check_interval r
    \<and> (wr_ready res \<longrightarrow> wr_elapsed res < max_wait_time r + 300)
    \<and> ((\<forall>k. probe_time (probe k) = 0) \<longrightarrow> wr_elapsed res < max_wait_time r + check_interval r)"
proof -
  from wait_for_files_result [OF assms, of w]
  obtain res where w: "wait_for_files r e forecast_date w
        = Some (Inr res,
            w\<lparr>w_probe_calls := w_probe_calls w @ replicate (wr_attempts res) (check_cmd r dt)\<rparr>)"
    and b: "wr_ready res \<longrightarrow>
         (\<exists>k. wr_attempts res = Suc k \<and> probe_ready (probe k) \<and> (\<forall>j<k. \<not> probe_ready (probe j))
            \<and> start_of_attempt r probe k < max_wait_time r
            \<and> wr_elapsed res = start_of_attempt r probe k + probe_time (probe k))"
    and c: "\<not> wr_ready res \<longrightarrow>
         (\<forall>j<wr_attempts res. \<not> probe_ready (probe j) \<and> start_of_attempt r probe j < max_wait_time r)
          \<and> wr_elapsed res = start_of_attempt r probe (wr_attempts res)
          \<and> max_wait_time r \<le> wr_elapsed res"
    by (elim exE conjE) (rule that, assumption+)
  have t: "probe_time (probe k) \<le> 300" for k by (rule probe_time_le)
  have "wr_elapsed res < max_wait_time r + 300 + check_interval r
    \<and> (wr_ready res \<longrightarrow> wr_elapsed res < max_wait_time r + 300)
    \<and> ((\<forall>k. probe_time (probe k) = 0) \<longrightarrow> wr_elapsed res < max_wait_time r + check_interval r)"
  proof (cases "wr_ready res")
    case True
    with b obtain k where k: "start_of_attempt r probe k < max_wait_time r"
      "wr_elapsed res = start_of_attempt r probe k + probe_time (probe k)" by blast
    from k t [of k] assms(1) show ?thesis by auto
  next
    case False
    with c have c': "\<forall>j<wr_attempts res. start_of_attempt r probe j < max_wait_time r"
      and el: "wr_elapsed res = start_of_attempt r probe (wr_attempts res)" by simp_all
    show ?thesis
    proof (cases "wr_attempts res")
      case 0
      with el assms(1) False show ?thesis by simp
    next
      case (Suc m)
      with c' have "start_of_attempt r probe m < max_wait_time r" by simp
      with el Suc t [of m] False show ?thesis by (auto simp add: attempt_cost_def)
    qed
  qed
  with w show ?thesis by blast
qed

theorem wait_for_files_ends_within_max_wait_plus_timeout_plus_interval_witness:
  "0 < check_interval example_runner
    \<and> strptime ''2024-01-01''
        = Inr \<lparr>dt_year = 2024, dt_month = 1, dt_day = 1, dt_hour = 0, dt_minute = 0\<rparr>
    \<and> (\<exists>res w'. wait_for_files example_runner
          \<lparr>env_probe = slow_probe, env_sbatch = accepting_sbatch\<rparr> ''2024-01-01'' example_world
            = Some (Inr res, w')
        \<and> wr_elapsed res < 8400)
    \<and> max_wait_time example_runner + 300 + check_interval example_runner = 8400"
proof -
  let ?D = "\<lparr>dt_year = 2024, dt_month = 1, dt_day = 1, dt_hour = 0, dt_minute = 0\<rparr>"
  let ?e = "\<lparr>env_probe = slow_probe, env_sbatch = accepting_sbatch\<rparr>"
  have i: "0 < check_interval example_runner"
    by (simp add: example_runner_def S2SForecastRunner_init_def)
  have m: "max_wait_time example_runner + 300 + check_interval example_runner = 8400"
    by (simp add: example_runner_def S2SForecastRunner_init_def)
  have v: "valid_ymd 2024 1 1" by (simp add: valid_ymd_def days_in_month_def DAYS_IN_MONTH_def)
  have "iso_date 2024 1 1 = ''2024-01-01''"
    by (simp add: iso_date_def fmt4_def fmt2_def digit_char_def)
  with strptime_iso_date [OF v] have s: "strptime ''2024-01-01'' = Inr ?D" by simp
  from wait_for_files_ends_within_max_wait_plus_timeout_plus_interval
    [OF i s refl, of ?e example_world]
  have "\<exists>res w'. wait_for_files example_runner ?e ''2024-01-01'' example_world
            = Some (Inr res, w')
        \<and> wr_elapsed res < 8400"
    unfolding m by blast
  with i s m show ?thesis by simp
qed

section \<open>About \<^verbatim>\<open>submit_job\<close>, \<^verbatim>\<open>send_notification\<close> and \<^verbatim>\<open>run\<close>\<close>

lemma send_notification_appends:
  "w_notifications (send_notification r success message job_id w)
     = w_notifications w @
       [\<lparr>n_success = success,
         n_subject = (if success then ''V2 ODAS Run Submitted - '' @ experiment_name r
                      else ''V2 ODAS Run Failed - '' @ experiment_name r),
         n_body = (if success
             then ''V2 ODAS Run Submitted for experiment: '' @ experiment_name r @
               (case job_id of
                  None \<Rightarrow> []
                | Some j \<Rightarrow> if j \<noteq> [] then newline @ ''Job ID: '' @ j else [])
             else ''V2 ODAS Run Failed for experiment: '' @ experiment_name r @
               newline @ ''Error: '' @ message),
         n_recipients = email_list r\<rparr>]"
  by (simp add: send_notification_def Let_def)

lemma send_notification_rest:
  "w_fs (send_notification r success message job_id w) = w_fs w
    \<and> w_probe_calls (send_notification r success message job_id w) = w_probe_calls w
    \<and> w_sbatch_calls (send_notification r success message job_id w) = w_sbatch_calls w"
  by (simp add: send_notification_def Let_def)

text \<open>The three ways \<^verbatim>\<open>submit_job\<close> can go.\<close>

lemma submit_job_marker_is_directory:
  assumes "w_fs w (marker_file r) = Some Dir"
  shows "submit_job r e w = ((False, None), w)"
  using assms by (simp add: submit_job_def unlink_missing_ok_def)

lemma submit_job_accepted:
  assumes "w_fs w (marker_file r) \<noteq> Some Dir" "env_sbatch e = Runs t 0 out err"
  shows "submit_job r e w
    = ((True, Some (strip out)),
       w\<lparr>w_fs := (w_fs w)(marker_file r := None),
          w_sbatch_calls := w_sbatch_calls w @
            [([''/usr/bin/sbatch'', job_script r], experiment_dir r,
              (w_fs w)(marker_file r := None))]\<rparr>)"
proof (cases "w_fs w (marker_file r)")
  case None
  then have "(w_fs w)(marker_file r := None) = w_fs w" by auto
  with None assms(2) show ?thesis
    by (simp add: submit_job_def unlink_missing_ok_def Let_def)
next
  case (Some nd)
  with assms(1) obtain ls where "nd = File ls" by (cases nd) simp_all
  with Some assms(2) show ?thesis
    by (simp add: submit_job_def unlink_missing_ok_def Let_def)
qed

lemma submit_job_rejected:
  assumes "w_fs w (marker_file r) \<noteq> Some Dir" "\<not> (\<exists>t out err. env_sbatch e = Runs t 0 out err)"
  shows "submit_job r e w
    = ((False, None),
       w\<lparr>w_fs := (w_fs w)(marker_file r := None),
          w_sbatch_calls := w_sbatch_calls w @
            [([''/usr/bin/sbatch'', job_script r], experiment_dir r,
              (w_fs w)(marker_file r := None))]\<rparr>)"
proof -
  have res: "(case fst (subprocess_run None (env_sbatch e)) of
                CompletedProcess returncode out err \<Rightarrow>
                  if returncode = 0 then ((True, Some (strip out)), w')
                  else ((False, None), w')
              | TimeoutExpired \<Rightarrow> ((False, None), w')
              | SpawnError \<Rightarrow> ((False, None), w')) = ((False, None), w')" for w' :: world
    using assms(2) by (cases "env_sbatch e") auto
  show ?thesis
  proof (cases "w_fs w (marker_file r)")
    case None
    then have "(w_fs w)(marker_file r := None) = w_fs w" by auto
    with None show ?thesis
      by (simp add: submit_job_def unlink_missing_ok_def Let_def res)
  next
    case (Some nd)
    with assms(1) obtain ls where "nd = File ls" by (cases nd) simp_all
    with Some show ?thesis
      by (simp add: submit_job_def unlink_missing_ok_def Let_def res)
  qed
qed

lemma submit_job_notifications:
  "w_notifications (snd (submit_job r e w)) = w_notifications w
    \<and> w_probe_calls (snd (submit_job r e w)) = w_probe_calls w"
proof (cases "w_fs w (marker_file r) = Some Dir")
  case True
  then show ?thesis by (simp add: submit_job_marker_is_directory)
next
  case False
  show ?thesis
  proof (cases "\<exists>t out err. env_sbatch e = Runs t 0 out err")
    case True
    then obtain t out err where "env_sbatch e = Runs t 0 out err" by blast
    from submit_job_accepted [OF False this] show ?thesis by simp
  next
    case nr: False
    from submit_job_rejected [OF False nr] show ?thesis by simp
  qed
qed

lemma submit_job_success_iff:
  "fst (fst (submit_job r e w))
     \<longleftrightarrow> w_fs w (marker_file r) \<noteq> Some Dir \<and> (\<exists>t out err. env_sbatch e = Runs t 0 out err)"
proof (cases "w_fs w (marker_file r) = Some Dir")
  case True
  then show ?thesis by (simp add: submit_job_marker_is_directory)
next
  case False
  show ?thesis
  proof (cases "\<exists>t out err. env_sbatch e = Runs t 0 out err")
    case True
    then obtain t out err where "env_sbatch e = Runs t 0 out err" by blast
    from submit_job_accepted [OF False this] False True show ?thesis by simp
  next
    case nr: False
    from submit_job_rejected [OF False nr] False nr show ?thesis by simp
  qed
qed

lemma submit_job_failure_result:
  assumes "\<not> fst (fst (submit_job r e w))"
  shows "fst (submit_job r e w) = (False, None)"
proof (cases "w_fs w (marker_file r) = Some Dir")
  case True
  then show ?thesis by (simp add: submit_job_marker_is_directory)
next
  case False
  with assms have "\<not> (\<exists>t out err. env_sbatch e = Runs t 0 out err)"
    by (simp add: submit_job_success_iff)
  from submit_job_rejected [OF False this] show ?thesis by simp
qed

text \<open>Each path through \<^verbatim>\<open>run\<close>.\<close>

lemma run_invalid:
  assumes "\<not> validate_experiment r (w_fs w)"
  shows "run r e s w
    = Some (Inr 1, send_notification r False ''Experiment validation failed'' None w)"
  using assms by (simp add: run_def)

lemma run_unparsed:
  assumes "validate_experiment r (w_fs w)" "strptime s = Inl err"
  shows "run r e s w = Some (Inl err, w)"
  using assms by (simp add: run_def check_forecast_date_unparsed)

lemma run_not_due:
  assumes "validate_experiment r (w_fs w)" "check_forecast_date s = Inr False"
  shows "run r e s w = Some (Inr 0, w)"
  using assms by (simp add: run_def)

lemma run_timeout:
  assumes "validate_experiment r (w_fs w)" "check_forecast_date s = Inr True"
    and "wait_for_files r e s w = Some (Inr res, w1)" "\<not> wr_ready res"
  shows "run r e s w
    = Some (Inr 1, send_notification r False ''Timeout waiting for input files'' None w1)"
  using assms by (simp add: run_def)

lemma run_submit_failed:
  assumes "validate_experiment r (w_fs w)" "check_forecast_date s = Inr True"
    and "wait_for_files r e s w = Some (Inr res, w1)" "wr_ready res"
    and "\<not> fst (fst (submit_job r e w1))"
  shows "run r e s w
    = Some (Inr 1, send_notification r False ''Job submission failed'' None
        (snd (submit_job r e w1)))"
proof -
  obtain success j w2 where sj: "submit_job r e w1 = ((success, j), w2)"
    by (cases "submit_job r e w1") auto
  with assms show ?thesis by (simp add: run_def)
qed

lemma run_submitted:
  assumes "validate_experiment r (w_fs w)" "check_forecast_date s = Inr True"
    and "wait_for_files r e s w = Some (Inr res, w1)" "wr_ready res"
    and "fst (fst (submit_job r e w1))"
  shows "run r e s w
    = Some (Inr 0, send_notification r True [] (snd (fst (submit_job r e w1)))
        (snd (submit_job r e w1)))"
proof -
  obtain success j w2 where sj: "submit_job r e w1 = ((success, j), w2)"
    by (cases "submit_job r e w1") auto
  with assms show ?thesis by (simp add: run_def)
qed

lemma check_forecast_date_cases:
  "(\<exists>err. strptime s = Inl err) \<or> check_forecast_date s = Inr False
    \<or> check_forecast_date s = Inr True"
proof (cases "strptime s")
  case (Inl err)
  then show ?thesis by blast
next
  case (Inr D)
  from check_forecast_date_parsed [OF this] show ?thesis by auto
qed

lemma check_forecast_date_Inr_parsed:
  "check_forecast_date s = Inr b \<Longrightarrow> \<exists>dt. strptime s = Inr dt"
  by (cases "strptime s") (simp_all add: check_forecast_date_def)

lemma wait_for_files_returns:
  assumes "0 < check_interval r" "check_forecast_date s = Inr True"
  shows "\<exists>res w1. wait_for_files r e s w = Some (Inr res, w1)
    \<and> w_notifications w1 = w_notifications w \<and> w_fs w1 = w_fs w
    \<and> w_sbatch_calls w1 = w_sbatch_calls w
    \<and> (\<exists>cmd. w_probe_calls w1 = w_probe_calls w @ replicate (wr_attempts res) cmd)
    \<and> (wr_ready res \<longrightarrow> 0 < wr_attempts res)"
proof -
  from check_forecast_date_Inr_parsed [OF assms(2)] obtain dt where dt: "strptime s = Inr dt" ..
  from wait_for_files_result [OF assms(1) dt refl, of e w]
  obtain res where w: "wait_for_files r e s w
        = Some (Inr res,
            w\<lparr>w_probe_calls := w_probe_calls w @ replicate (wr_attempts res) (check_cmd r dt)\<rparr>)"
    and b: "wr_ready res \<longrightarrow>
         (\<exists>k. wr_attempts res = Suc k \<and> probe_ready (env_probe e (check_cmd r dt) k)
            \<and> (\<forall>j<k. \<not> probe_ready (env_probe e (check_cmd r dt) j))
            \<and> start_of_attempt r (env_probe e (check_cmd r dt)) k < max_wait_time r
            \<and> wr_elapsed res = start_of_attempt r (env_probe e (check_cmd r dt)) k
                + probe_time (env_probe e (check_cmd r dt) k))"
    by (elim exE conjE) (rule that, assumption+)
  from b have "wr_ready res \<longrightarrow> 0 < wr_attempts res" by auto
  with w show ?thesis by auto
qed

lemma run_paths:
  assumes "0 < check_interval r"
  shows "(\<not> validate_experiment r (w_fs w)
        \<and> run r e s w
            = Some (Inr 1, send_notification r False ''Experiment validation failed'' None w))
    \<or> (validate_experiment r (w_fs w)
        \<and> (\<exists>err. strptime s = Inl err \<and> run r e s w = Some (Inl err, w)))
    \<or> (validate_experiment r (w_fs w) \<and> check_forecast_date s = Inr False
        \<and> run r e s w = Some (Inr 0, w))
    \<or> (validate_experiment r (w_fs w) \<and> check_forecast_date s = Inr True
        \<and> (\<exists>res w1. wait_for_files r e s w = Some (Inr res, w1)
              \<and> w_notifications w1 = w_notifications w \<and> \<not> wr_ready res
              \<and> run r e s w
                  = Some (Inr 1,
                      send_notification r False ''Timeout waiting for input files'' None w1)))
    \<or> (validate_experiment r (w_fs w) \<and> check_forecast_date s = Inr True
        \<and> (\<exists>res w1. wait_for_files r e s w = Some (Inr res, w1)
              \<and> w_notifications w1 = w_notifications w \<and> wr_ready res
              \<and> \<not> fst (fst (submit_job r e w1))
              \<and> run r e s w
                  = Some (Inr 1,
                      send_notification r False ''Job submission failed'' None
                        (snd (submit_job r e w1)))))
    \<or> (validate_experiment r (w_fs w) \<and> check_forecast_date s = Inr True
        \<and> (\<exists>res w1. wait_for_files r e s w = Some (Inr res, w1)
              \<and> w_notifications w1 = w_notifications w \<and> wr_ready res
              \<and> fst (fst (submit_job r e w1))
              \<and> run r e s w
                  = Some (Inr 0,
                      send_notification r True [] (snd (fst (submit_job r e w1)))
                        (snd (submit_job r e w1)))))"
proof (cases "validate_experiment r (w_fs w)")
  case False
  from run_invalid [OF this] False show ?thesis by blast
next
  case v: True
  from check_forecast_date_cases [of s] show ?thesis
  proof (elim disjE exE)
    fix err
    assume "strptime s = Inl err"
    with run_unparsed [OF v this] v show ?thesis by blast
  next
    assume c: "check_forecast_date s = Inr False"
    with run_not_due [OF v this] v show ?thesis by blast
  next
    assume c: "check_forecast_date s = Inr True"
    from wait_for_files_returns [OF assms c, of e w] obtain res w1
      where wf: "wait_for_files r e s w = Some (Inr res, w1)"
        and n: "w_notifications w1 = w_notifications w" by blast
    show ?thesis
    proof (cases "wr_ready res")
      case False
      from run_timeout [OF v c wf False] v c wf n False show ?thesis by blast
    next
      case rd: True
      show ?thesis
      proof (cases "fst (fst (submit_job r e w1))")
        case False
        from run_submit_failed [OF v c wf rd False] v c wf n rd False show ?thesis by blast
      next
        case True
        from run_submitted [OF v c wf rd True] v c wf n rd True show ?thesis by blast
      qed
    qed
  qed
qed

text \<open>
  C7. Whatever is at the path of the marker file before, \<^verbatim>\<open>submit_job\<close> removes it
  before it calls the scheduler: when the marker is absent or a file, the scheduler is
  called once, on a file system without the marker, and the marker stays absent; an
  absent marker is no error and changes nothing. (A directory at that path makes the
  clean-up raise: then the scheduler is not called at all.)
\<close>

theorem submit_job_removes_marker_before_sbatch:
  "\<exists>res w'. submit_job r e w = (res, w')
    \<and> (w_fs w (marker_file r) \<noteq> Some Dir \<longrightarrow>
          w_sbatch_calls w' = w_sbatch_calls w @
            [([''/usr/bin/sbatch'', job_script r], experiment_dir r, w_fs w')]
          \<and> w_fs w' = (w_fs w)(marker_file r := None)
          \<and> w_fs w' (marker_file r) = None)
    \<and> (w_fs w (marker_file r) = None \<longrightarrow> w_fs w' = w_fs w)
    \<and> (w_fs w (marker_file r) = Some Dir \<longrightarrow> w' = w \<and> res = (False, None))"
proof (cases "w_fs w (marker_file r) = Some Dir")
  case True
  from submit_job_marker_is_directory [OF this] True show ?thesis by simp
next
  case nd: False
  have same: "w_fs w (marker_file r) = None \<longrightarrow> (w_fs w)(marker_file r := None) = w_fs w"
    by auto
  show ?thesis
  proof (cases "\<exists>t out err. env_sbatch e = Runs t 0 out err")
    case True
    then obtain t out err where "env_sbatch e = Runs t 0 out err" by blast
    from submit_job_accepted [OF nd this] nd same show ?thesis by auto
  next
    case False
    from submit_job_rejected [OF nd False] nd same show ?thesis by auto
  qed
qed

theorem submit_job_removes_marker_before_sbatch_witness:
  "example_fs (marker_file example_runner) = Some (File [''stale''])
    \<and> w_fs (snd (submit_job example_runner
          \<lparr>env_probe = ready_probe, env_sbatch = accepting_sbatch\<rparr> example_world))
        (marker_file example_runner) = None
    \<and> map (\<lambda>(cmd, cwd, fs). (cmd, cwd, fs (marker_file example_runner)))
        (w_sbatch_calls (snd (submit_job example_runner
          \<lparr>env_probe = ready_probe, env_sbatch = accepting_sbatch\<rparr> example_world)))
       = [([''/usr/bin/sbatch'', ''/home/gmaofcst/geos-s2s-3/S2S-2_1_ANA_002/gcm_run.j''],
           ''/home/gmaofcst/geos-s2s-3/S2S-2_1_ANA_002'', None)]"
proof -
  let ?e = "\<lparr>env_probe = ready_probe, env_sbatch = accepting_sbatch\<rparr>"
  have m: "example_fs (marker_file example_runner) = Some (File [''stale''])"
    by code_simp
  have p: "job_script example_runner = ''/home/gmaofcst/geos-s2s-3/S2S-2_1_ANA_002/gcm_run.j''"
    "experiment_dir example_runner = ''/home/gmaofcst/geos-s2s-3/S2S-2_1_ANA_002''"
    by code_simp+
  have f: "w_fs example_world = example_fs" "w_sbatch_calls example_world = []"
    by (simp_all add: example_world_def)
  from submit_job_removes_marker_before_sbatch [of example_runner ?e example_world]
  obtain res w' where s: "submit_job example_runner ?e example_world = (res, w')"
    and c: "w_fs example_world (marker_file example_runner) \<noteq> Some Dir \<longrightarrow>
          w_sbatch_calls w' = w_sbatch_calls example_world @
            [([''/usr/bin/sbatch'', job_script example_runner], experiment_dir example_runner,
              w_fs w')]
          \<and> w_fs w' = (w_fs example_world)(marker_file example_runner := None)
          \<and> w_fs w' (marker_file example_runner) = None"
    by (elim exE conjE) (rule that, assumption+)
  from c m f have "w_sbatch_calls w' =
            [([''/usr/bin/sbatch'', job_script example_runner], experiment_dir example_runner,
              w_fs w')]" "w_fs w' (marker_file example_runner) = None"
    by simp_all
  with s m p show ?thesis by simp
qed

lemma strip_job_id: "strip (''123456'' @ newline) = ''123456''"
  by (simp add: strip_def newline_def is_space_def)


text \<open>
  C6 as stated: a failed submission gives a result that carries the diagnostic text, and
  the notification contains it. With the scheduler ending with status 1 and
  \<open>QOS limit exceeded\<close> on its standard error, \<^verbatim>\<open>submit_job\<close> returns
  \<^verbatim>\<open>(False, None)\<close>, \<^verbatim>\<open>run\<close> returns 1, and the body of its one notification does not
  contain that text.
\<close>

theorem failure_notification_carries_stderr_counterexample:
  "env_sbatch \<lparr>env_probe = ready_probe, env_sbatch = rejecting_sbatch\<rparr>
      = Runs 1 1 [] ''QOS limit exceeded''
    \<and> fst (submit_job example_runner
          \<lparr>env_probe = ready_probe, env_sbatch = rejecting_sbatch\<rparr> example_world)
        = (False, None)
    \<and> map_option (\<lambda>(res, w). (res, map n_body (w_notifications w)))
        (run example_runner \<lparr>env_probe = ready_probe, env_sbatch = rejecting_sbatch\<rparr>
           ''2024-01-01'' example_world)
       = Some (Inr 1,
           [''V2 ODAS Run Failed for experiment: S2S-2_1_ANA_002'' @ newline
              @ ''Error: Job submission failed''])
    \<and> \<not> str_in ''QOS limit exceeded''
          (''V2 ODAS Run Failed for experiment: S2S-2_1_ANA_002'' @ newline
              @ ''Error: Job submission failed'')"
  by code_simp

text \<open>
  C6 as the code has it: \<^verbatim>\<open>submit_job\<close> reports success exactly when the clean-up does
  not raise and the scheduler command ends with status 0, and the job identifier is then
  its standard output, stripped; in every other case the result is \<^verbatim>\<open>(False, None)\<close>,
  without any text of the scheduler, and the notification \<^verbatim>\<open>run\<close> sends for a failed
  submission has the fixed message \<open>Job submission failed\<close>.
\<close>

theorem submit_job_success_iff_sbatch_exits_zero:
  "(fst (fst (submit_job r e w))
      \<longleftrightarrow> w_fs w (marker_file r) \<noteq> Some Dir \<and> (\<exists>t out err. env_sbatch e = Runs t 0 out err))
    \<and> (\<forall>t out err. w_fs w (marker_file r) \<noteq> Some Dir \<and> env_sbatch e = Runs t 0 out err
          \<longrightarrow> fst (submit_job r e w) = (True, Some (strip out)))
    \<and> (\<not> fst (fst (submit_job r e w)) \<longrightarrow> fst (submit_job r e w) = (False, None))
    \<and> (\<forall>s res w1. validate_experiment r (w_fs w) \<and> check_forecast_date s = Inr True
          \<and> wait_for_files r e s w = Some (Inr res, w1) \<and> wr_ready res
          \<and> \<not> fst (fst (submit_job r e w1))
          \<longrightarrow> (\<exists>w'. run r e s w = Some (Inr 1, w')
                \<and> w_notifications w' = w_notifications w @
                    [\<lparr>n_success = False,
                      n_subject = ''V2 ODAS Run Failed - '' @ experiment_name r,
                      n_body = ''V2 ODAS Run Failed for experiment: '' @ experiment_name r
                        @ newline @ ''Error: Job submission failed'',
                      n_recipients = email_list r\<rparr>]))"
proof -
  have a: "\<forall>t out err. w_fs w (marker_file r) \<noteq> Some Dir \<and> env_sbatch e = Runs t 0 out err
          \<longrightarrow> fst (submit_job r e w) = (True, Some (strip out))"
    by (auto simp add: submit_job_accepted)
  have b: "\<not> fst (fst (submit_job r e w)) \<longrightarrow> fst (submit_job r e w) = (False, None)"
    by (auto dest: submit_job_failure_result)
  have c: "\<forall>s res w1. validate_experiment r (w_fs w) \<and> check_forecast_date s = Inr True
          \<and> wait_for_files r e s w = Some (Inr res, w1) \<and> wr_ready res
          \<and> \<not> fst (fst (submit_job r e w1))
          \<longrightarrow> (\<exists>w'. run r e s w = Some (Inr 1, w')
                \<and> w_notifications w' = w_notifications w @
                    [\<lparr>n_success = False,
                      n_subject = ''V2 ODAS Run Failed - '' @ experiment_name r,
                      n_body = ''V2 ODAS Run Failed for experiment: '' @ experiment_name r
                        @ newline @ ''Error: Job submission failed'',
                      n_recipients = email_list r\<rparr>])"
  proof (intro allI impI, elim conjE)
    fix s res w1
    assume h: "validate_experiment r (w_fs w)" "check_forecast_date s = Inr True"
      "wait_for_files r e s w = Some (Inr res, w1)" "wr_ready res"
      "\<not> fst (fst (submit_job r e w1))"
    from h(2) obtain dt where dt: "strptime s = Inr dt"
      using check_forecast_date_Inr_parsed by blast
    from h(3) dt have n1: "w_notifications w1 = w_notifications w"
      by (auto simp add: wait_for_files_def split: option.splits)
    from submit_job_notifications [of r e w1] n1
    have n2: "w_notifications (snd (submit_job r e w1)) = w_notifications w" by simp
    from run_submit_failed [OF h] n2
    show "\<exists>w'. run r e s w = Some (Inr 1, w')
                \<and> w_notifications w' = w_notifications w @
                    [\<lparr>n_success = False,
                      n_subject = ''V2 ODAS Run Failed - '' @ experiment_name r,
                      n_body = ''V2 ODAS Run Failed for experiment: '' @ experiment_name r
                        @ newline @ ''Error: Job submission failed'',
                      n_recipients = email_list r\<rparr>]"
      by (simp add: send_notification_appends)
  qed
  from submit_job_success_iff [of r e w] a b c show ?thesis by blast
qed

theorem submit_job_success_iff_sbatch_exits_zero_witness:
  "fst (submit_job example_runner
        \<lparr>env_probe = ready_probe, env_sbatch = accepting_sbatch\<rparr> example_world)
      = (True, Some ''123456'')
    \<and> fst (submit_job example_runner
        \<lparr>env_probe = ready_probe, env_sbatch = rejecting_sbatch\<rparr> example_world)
      = (False, None)"
proof -
  let ?a = "\<lparr>env_probe = ready_probe, env_sbatch = accepting_sbatch\<rparr>"
  let ?b = "\<lparr>env_probe = ready_probe, env_sbatch = rejecting_sbatch\<rparr>"
  have m: "w_fs example_world (marker_file example_runner) \<noteq> Some Dir"
    by code_simp
  have sa: "env_sbatch ?a = Runs 1 0 (''123456'' @ newline) []"
    by (simp add: accepting_sbatch_def)
  have sb: "\<not> (\<exists>t out err. env_sbatch ?b = Runs t 0 out err)"
    by (simp add: rejecting_sbatch_def)
  note A = submit_job_success_iff_sbatch_exits_zero [of example_runner ?a example_world]
  note B = submit_job_success_iff_sbatch_exits_zero [of example_runner ?b example_world]
  from A [THEN conjunct2, THEN conjunct1, rule_format, of 1 "''123456'' @ newline" "[]"] m sa
    strip_job_id
  have 1: "fst (submit_job example_runner ?a example_world) = (True, Some ''123456'')"
    by simp
  from B [THEN conjunct1] sb
  have "\<not> fst (fst (submit_job example_runner ?b example_world))" by simp
  with B [THEN conjunct2, THEN conjunct2, THEN conjunct1]
  have 2: "fst (submit_job example_runner ?b example_world) = (False, None)"
    by simp
  from 1 2 show ?thesis by simp
qed

text \<open>
  C1. For every run with a date that parses (and a sleep of at least one second, so that
  the wait ends), \<^verbatim>\<open>run\<close> returns 0 or 1 along the state machine: 1 when the
  validation fails; 0 when the date is not due, and then the world is as before, with no
  notification and no call of the probe; otherwise the wait returns, and the status is 1
  when it timed out, 1 when the submission failed, and 0 when the job was submitted.
\<close>

theorem run_exit_status_follows_state_machine:
  assumes "0 < check_interval r" and "strptime forecast_date = Inr dt"
  shows "\<exists>code w'. run r e forecast_date w = Some (Inr code, w')
    \<and> (code = 0 \<or> code = 1)
    \<and> (check_forecast_date forecast_date = Inr False \<or> check_forecast_date forecast_date = Inr True)
    \<and> (\<not> validate_experiment r (w_fs w) \<longrightarrow> code = 1)
    \<and> (validate_experiment r (w_fs w) \<and> check_forecast_date forecast_date = Inr False
          \<longrightarrow> code = 0 \<and> w' = w)
    \<and> (validate_experiment r (w_fs w) \<and> check_forecast_date forecast_date = Inr True
          \<longrightarrow> (\<exists>res w1. wait_for_files r e forecast_date w = Some (Inr res, w1)
                \<and> (\<not> wr_ready res \<longrightarrow> code = 1)
                \<and> (wr_ready res \<and> \<not> fst (fst (submit_job r e w1)) \<longrightarrow> code = 1)
                \<and> (wr_ready res \<and> fst (fst (submit_job r e w1)) \<longrightarrow> code = 0)))"
proof -
  have two: "check_forecast_date forecast_date = Inr False
      \<or> check_forecast_date forecast_date = Inr True"
    using check_forecast_date_parsed [OF assms(2)] by auto
  from run_paths [OF assms(1), of w e forecast_date] show ?thesis
  proof (elim disjE conjE exE)
    assume "\<not> validate_experiment r (w_fs w)"
      "run r e forecast_date w
        = Some (Inr 1, send_notification r False ''Experiment validation failed'' None w)"
    with two show ?thesis by simp
  next
    fix err
    assume "strptime forecast_date = Inl err"
    with assms(2) show ?thesis by simp
  next
    assume "validate_experiment r (w_fs w)" "check_forecast_date forecast_date = Inr False"
      "run r e forecast_date w = Some (Inr 0, w)"
    then show ?thesis by simp
  next
    fix res w1
    assume "validate_experiment r (w_fs w)" "check_forecast_date forecast_date = Inr True"
      "wait_for_files r e forecast_date w = Some (Inr res, w1)" "\<not> wr_ready res"
      "run r e forecast_date w
        = Some (Inr 1, send_notification r False ''Timeout waiting for input files'' None w1)"
    then show ?thesis by simp
  next
    fix res w1
    assume "validate_experiment r (w_fs w)" "check_forecast_date forecast_date = Inr True"
      "wait_for_files r e forecast_date w = Some (Inr res, w1)" "wr_ready res"
      "\<not> fst (fst (submit_job r e w1))"
      "run r e forecast_date w
        = Some (Inr 1, send_notification r False ''Job submission failed'' None
            (snd (submit_job r e w1)))"
    then show ?thesis by simp
  next
    fix res w1
    assume "validate_experiment r (w_fs w)" "check_forecast_date forecast_date = Inr True"
      "wait_for_files r e forecast_date w = Some (Inr res, w1)" "wr_ready res"
      "fst (fst (submit_job r e w1))"
      "run r e forecast_date w
        = Some (Inr 0, send_notification r True [] (snd (fst (submit_job r e w1)))
            (snd (submit_job r e w1)))"
    then show ?thesis by simp
  qed
qed

lemma example_valid: "validate_experiment example_runner (w_fs example_world)"
  by code_simp

lemma example_interval: "0 < check_interval example_runner"
  by (simp add: example_runner_def S2SForecastRunner_init_def)

lemma strptime_jan_2:
  "strptime ''2024-01-02''
    = Inr \<lparr>dt_year = 2024, dt_month = 1, dt_day = 2, dt_hour = 0, dt_minute = 0\<rparr>"
proof -
  have v: "valid_ymd 2024 1 2" by (simp add: valid_ymd_def days_in_month_def DAYS_IN_MONTH_def)
  have "iso_date 2024 1 2 = ''2024-01-02''"
    by (simp add: iso_date_def fmt4_def fmt2_def digit_char_def)
  with strptime_iso_date [OF v] show ?thesis by simp
qed

lemma jan_2_not_due: "check_forecast_date ''2024-01-02'' = Inr False"
  using check_forecast_date_parsed [OF strptime_jan_2]
  by (simp add: ymd2ord_def days_before_month_def DAYS_BEFORE_MONTH_def)

theorem run_exit_status_follows_state_machine_witness:
  "0 < check_interval example_runner
    \<and> strptime ''2024-01-02''
        = Inr \<lparr>dt_year = 2024, dt_month = 1, dt_day = 2, dt_hour = 0, dt_minute = 0\<rparr>
    \<and> validate_experiment example_runner (w_fs example_world)
    \<and> check_forecast_date ''2024-01-02'' = Inr False
    \<and> run example_runner \<lparr>env_probe = ready_probe, env_sbatch = accepting_sbatch\<rparr>
        ''2024-01-02'' example_world = Some (Inr 0, example_world)"
proof -
  let ?e = "\<lparr>env_probe = ready_probe, env_sbatch = accepting_sbatch\<rparr>"
  from run_exit_status_follows_state_machine
    [OF example_interval strptime_jan_2, of ?e example_world]
  obtain code w' where r: "run example_runner ?e ''2024-01-02'' example_world = Some (Inr code, w')"
    and n: "validate_experiment example_runner (w_fs example_world)
          \<and> check_forecast_date ''2024-01-02'' = Inr False
          \<longrightarrow> code = 0 \<and> w' = example_world"
    by (elim exE conjE) (rule that, assumption+)
  from n example_valid jan_2_not_due have "code = 0" "w' = example_world" by simp_all
  with r example_interval strptime_jan_2 example_valid jan_2_not_due show ?thesis by simp
qed







end
